theory Spec2Isabelle
  imports Main "HOL-Library.AList"
begin

section \<open>Values, errors, promises\<close>

text \<open>
  The bootstrap of \<^verbatim>\<open>src/vector/index.ts\<close>: the feature probe
  \<^verbatim>\<open>checkBrowserFeatures\<close>, the helper \<^verbatim>\<open>settled\<close>, the orchestrator
  \<^verbatim>\<open>start\<close> and the handler attached to \<^verbatim>\<open>start().catch\<close>.

  A property of the \<^verbatim>\<open>Modernizr\<close> object holds \<^verbatim>\<open>undefined\<close>, a primitive boolean, or
  something else (Modernizr stores \<^verbatim>\<open>Boolean\<close> objects for some features; they are
  neither \<^verbatim>\<open>=== undefined\<close> nor \<^verbatim>\<open>=== false\<close>).
\<close>

datatype jsval = JUndefined | JBool bool | JObject

text \<open>
  A thrown value or rejection reason, taken to be an object, as every \<^verbatim>\<open>Error\<close> is. The
  code reads two properties of it: \<^verbatim>\<open>error.err\<close> (tested with
  \<^verbatim>\<open>instanceof SyntaxError\<close>, then its \<^verbatim>\<open>message\<close>) and \<^verbatim>\<open>err.translatedMessage\<close>.
\<close>

datatype inner_error = SyntaxError string | OtherError string

datatype jserror = JsError (err: "inner_error option") (translatedMessage: "string option")

text \<open>
  A promise is known by the terminal state it reaches: fulfilled with a value, rejected
  with a reason, or never settled. The same three cases describe the promise an
  \<^verbatim>\<open>async\<close> function returns.
\<close>

datatype 'a outcome = Fulfilled 'a | Rejected jserror | Pending

section \<open>Environment and state\<close>

type_synonym modernizr = "(string \<times> jsval) list"

type_synonym params = "(string \<times> string) list"

record fragparts =
  params :: params
  location :: string

datatype confirmation = Confirms | NeverConfirms

text \<open>
  The exports of \<^verbatim>\<open>./init\<close>. A loader is given by the outcome of the promise its
  call returns; \<^verbatim>\<open>preparePlatform\<close> is synchronous and is given by the error it
  throws, if any; \<^verbatim>\<open>showIncompatibleBrowser\<close> is given by whether the surface ever
  invokes the callback it receives. The asynchronous exports report failure through
  their promise only, and the translation function \<^verbatim>\<open>_t\<close> (the field \<open>t\<close>) returns a
  string for every key and substitution.
\<close>

record init_module =
  rageshakePromise :: "unit outcome"
  setupLogStorage :: "unit outcome"
  preparePlatform :: "jserror option"
  loadOlm :: "unit outcome"
  loadConfig :: "unit outcome"
  loadSkin :: "unit outcome"
  loadLanguage :: "unit outcome"
  loadTheme :: "unit outcome"
  loadApp :: "params \<Rightarrow> unit outcome"
  showError :: "string \<Rightarrow> string list option \<Rightarrow> unit outcome"
  showIncompatibleBrowser :: confirmation
  t :: "string \<Rightarrow> (string \<times> string) list \<Rightarrow> string"

text \<open>
  What the code reads from the browser. \<^verbatim>\<open>Modernizr\<close> lists the properties of the
  global in \<^verbatim>\<open>Object.keys\<close> order, \<^verbatim>\<open>None\<close> when the global is missing.
  \<^verbatim>\<open>addTest\<close> belongs to the Modernizr library and is taken as it comes: name, test
  result, object before, object after. \<^verbatim>\<open>parseQsFromFragment\<close> is imported from
  \<^verbatim>\<open>./url_utils\<close>; its result on \<^verbatim>\<open>window.location\<close> is the field \<^verbatim>\<open>parsedFragment\<close>.
  \<^verbatim>\<open>import_init\<close> is the outcome of the dynamic import.
\<close>

record window =
  Modernizr :: "modernizr option"
  addTest :: "string \<Rightarrow> jsval \<Rightarrow> modernizr \<Rightarrow> modernizr"
  promise_finally_is_function :: bool
  regexp_prototype :: bool
  regexp_dotAll_getter :: bool
  object_fromEntries_is_function :: bool
  MSStream :: bool
  userAgent :: string
  cookie :: string
  parsedFragment :: fragparts
  import_init :: "init_module outcome"

datatype logarg = LStr string | LErr jserror

record iframe =
  sandbox :: string
  src :: string
  style :: "(string \<times> string) list"

datatype event =
    ConsoleError "logarg list"
  | ConsoleLog "logarg list"
  | Call_loadOlm
  | Call_preparePlatform
  | Call_loadConfig
  | Call_setupLogStorage
  | Call_loadLanguage
  | Call_loadTheme
  | Call_loadSkin
  | Call_loadApp params
  | Call_showError string "string list option"
  | Call_showIncompatibleBrowser
  | Set_location_href string
  | Storage_setItem string string
  | Delete_body_style_height
  | AppendChild string iframe

text \<open>
  The state the code changes: what it did, in order, and \<^verbatim>\<open>window.localStorage\<close>
  (\<^verbatim>\<open>None\<close> when the browser has none).
\<close>

record state =
  trace :: "event list"
  localStorage :: "(string \<times> string) list option"

definition emit :: "event \<Rightarrow> state \<Rightarrow> state" where
  "emit e s = s\<lparr>trace := trace s @ [e]\<rparr>"

definition console_error :: "logarg list \<Rightarrow> state \<Rightarrow> state" where
  "console_error args s = emit (ConsoleError args) s"

definition console_log :: "logarg list \<Rightarrow> state \<Rightarrow> state" where
  "console_log args s = emit (ConsoleLog args) s"

section \<open>settled\<close>

text \<open>
  \<^verbatim>\<open>for (const prom of promises) { try { await prom; } catch (e) { console.error(e); } }\<close>
  Awaiting a promise that never settles suspends the helper for good.
\<close>

fun settled :: "'a outcome list \<Rightarrow> state \<Rightarrow> unit outcome \<times> state" where
  "settled [] s = (Fulfilled (), s)"
| "settled (prom # promises) s =
     (case prom of
        Fulfilled _ \<Rightarrow> settled promises s
      | Rejected e \<Rightarrow> settled promises (console_error [LErr e] s)
      | Pending \<Rightarrow> (Pending, s))"

section \<open>checkBrowserFeatures\<close>

definition property :: "modernizr \<Rightarrow> string \<Rightarrow> jsval" where
  "property m k = (case map_of m k of None \<Rightarrow> JUndefined | Some v \<Rightarrow> v)"

definition Object_keys :: "modernizr \<Rightarrow> string list" where
  "Object_keys m = map fst m"

definition msg_modernizr_missing :: string where
  "msg_modernizr_missing = ''Cannot check features - Modernizr global is missing.''"

definition msg_no_results :: string where
  "msg_no_results =
     ''Looked for feature '%s' but Modernizr has no results for this. '' @
     ''Has it been configured correctly?''"

definition msg_missing_feature :: string where
  "msg_missing_feature = ''Browser missing feature: '%s'' @ [CHR 0x27]"

text \<open>The three tests the code passes to \<^verbatim>\<open>addTest\<close>, evaluated.\<close>

definition test_promiseprototypefinally :: "window \<Rightarrow> jsval" where
  "test_promiseprototypefinally w = JBool (promise_finally_is_function w)"

definition test_regexpdotall :: "window \<Rightarrow> jsval" where
  "test_regexpdotall w =
     (if regexp_prototype w then JBool (regexp_dotAll_getter w) else JUndefined)"

definition test_objectfromentries :: "window \<Rightarrow> jsval" where
  "test_objectfromentries w = JBool (object_fromEntries_is_function w)"

definition registered :: "window \<Rightarrow> modernizr \<Rightarrow> modernizr" where
  "registered w m =
     addTest w ''objectfromentries'' (test_objectfromentries w)
       (addTest w ''regexpdotall'' (test_regexpdotall w)
         (addTest w ''promiseprototypefinally'' (test_promiseprototypefinally w) m))"

text \<open>The loop over \<^verbatim>\<open>featureList\<close>, with \<^verbatim>\<open>featureComplete\<close> as it stands.\<close>

fun feature_loop :: "modernizr \<Rightarrow> string list \<Rightarrow> bool \<Rightarrow> state \<Rightarrow> bool \<times> state" where
  "feature_loop m [] featureComplete s = (featureComplete, s)"
| "feature_loop m (k # featureList) featureComplete s =
     (if property m k = JUndefined
      then (False, console_error [LStr msg_no_results, LStr k] s)
      else if property m k = JBool False
      then feature_loop m featureList False
             (console_error [LStr msg_missing_feature, LStr k] s)
      else feature_loop m featureList featureComplete s)"

definition checkBrowserFeatures :: "window \<Rightarrow> state \<Rightarrow> bool \<times> state" where
  "checkBrowserFeatures w s =
     (case Modernizr w of
        None \<Rightarrow> (False, console_error [LStr msg_modernizr_missing] s)
      | Some m0 \<Rightarrow>
          (let m = registered w m0;
               featureList = Object_keys m
           in feature_loop m featureList True s))"

section \<open>start\<close>

text \<open>
  The body of the \<^verbatim>\<open>try\<close> block ends in one of two ways: an error is thrown to the
  \<^verbatim>\<open>catch\<close> clause (\<open>Inl\<close>), or the function is over (\<open>Inr\<close>) and the promise of
  \<^verbatim>\<open>start\<close> has the given outcome: fulfilled after a \<^verbatim>\<open>return\<close> or the last statement,
  the outcome of the promise returned by \<^verbatim>\<open>return showError(...)\<close> (which is not awaited
  inside the \<^verbatim>\<open>try\<close>), or never settled when an awaited promise never settles.
\<close>

type_synonym completion = "(jserror + unit outcome) \<times> state"

definition await :: "'a outcome \<Rightarrow> (state \<Rightarrow> completion) \<Rightarrow> state \<Rightarrow> completion" where
  "await prom k s =
     (case prom of
        Fulfilled _ \<Rightarrow> k s
      | Rejected e \<Rightarrow> (Inl e, s)
      | Pending \<Rightarrow> (Inr Pending, s))"

definition await_settled ::
  "'a outcome list \<Rightarrow> (state \<Rightarrow> completion) \<Rightarrow> state \<Rightarrow> completion" where
  "await_settled promises k s =
     (case settled promises s of
        (Fulfilled _, s') \<Rightarrow> k s'
      | (Rejected e, s') \<Rightarrow> (Inl e, s')
      | (Pending, s') \<Rightarrow> (Inr Pending, s'))"

definition return_showError ::
  "init_module \<Rightarrow> string \<Rightarrow> string list option \<Rightarrow> state \<Rightarrow> completion" where
  "return_showError ini title messages s =
     (Inr (showError ini title messages), emit (Call_showError title messages) s)"

text \<open>A JavaScript string is truthy when it is not empty; a missing property is not.\<close>

definition truthy :: "string option \<Rightarrow> bool" where
  "truthy v = (case v of None \<Rightarrow> False | Some str \<Rightarrow> str \<noteq> [])"

definition or_else :: "string option \<Rightarrow> string \<Rightarrow> string" where
  "or_else v d = (case v of None \<Rightarrow> d | Some str \<Rightarrow> if str \<noteq> [] then str else d)"

fun starts_with :: "string \<Rightarrow> string \<Rightarrow> bool" where
  "starts_with [] str = True"
| "starts_with (c # cs) [] = False"
| "starts_with (c # cs) (d # ds) = (c = d \<and> starts_with cs ds)"

text \<open>\<^verbatim>\<open>str.indexOf(needle) !== -1\<close>, and \<^verbatim>\<open>/needle/.test(str)\<close> for a literal pattern.\<close>

fun str_includes :: "string \<Rightarrow> string \<Rightarrow> bool" where
  "str_includes needle [] = (needle = [])"
| "str_includes needle (c # cs) = (starts_with needle (c # cs) \<or> str_includes needle cs)"

definition key_accepts :: string where
  "key_accepts = ''mx_accepts_unsupported_browser''"

definition getItem :: "state \<Rightarrow> string \<Rightarrow> string option" where
  "getItem s k = (case localStorage s of None \<Rightarrow> None | Some items \<Rightarrow> map_of items k)"

definition setItem :: "string \<Rightarrow> string \<Rightarrow> state \<Rightarrow> state" where
  "setItem k v s =
     emit (Storage_setItem k v)
       (s\<lparr>localStorage := map_option (AList.update k v) (localStorage s)\<rparr>)"

text \<open>Lines 199 to 211: the strict awaits and the hand-off to \<^verbatim>\<open>loadApp\<close>.\<close>

definition app_load_critical_path :: "window \<Rightarrow> init_module \<Rightarrow> state \<Rightarrow> completion" where
  "app_load_critical_path w ini =
     await (loadOlm ini)
       (await (loadSkin ini)
         (await (loadTheme ini)
           (await (loadLanguage ini)
             (await_settled [setupLogStorage ini]
               (\<lambda>s. await (loadApp ini (params (parsedFragment w)))
                      (\<lambda>s'. (Inr (Fulfilled ()), s'))
                      (emit (Call_loadApp (params (parsedFragment w))) s))))))"

text \<open>Lines 176 to 193: \<^verbatim>\<open>await loadConfigPromise\<close> inside its own \<^verbatim>\<open>try\<close>.\<close>

definition config_error_messages :: "init_module \<Rightarrow> string \<Rightarrow> string list" where
  "config_error_messages ini message =
     [t ini (''Your Element configuration contains invalid JSON. '' @
             ''Please correct the problem and reload the page.'') [],
      t ini ''The message from the parser is: %(message)s''
        [(''message'', if message \<noteq> [] then message else t ini ''Invalid JSON'' [])]]"

definition config_hard_check :: "window \<Rightarrow> init_module \<Rightarrow> state \<Rightarrow> completion" where
  "config_hard_check w ini s =
     (case loadConfig ini of
        Fulfilled _ \<Rightarrow> app_load_critical_path w ini s
      | Pending \<Rightarrow> (Inr Pending, s)
      | Rejected error \<Rightarrow>
          (case err error of
             Some (SyntaxError message) \<Rightarrow>
               return_showError ini (t ini ''Your Element is misconfigured'' [])
                 (Some (config_error_messages ini message)) s
           | _ \<Rightarrow>
               return_showError ini
                 (t ini ''Unable to load config file: please refresh the page to try again.'' [])
                 None s))"

text \<open>Lines 154 to 174: \<^verbatim>\<open>acceptBrowser\<close> and the incompatible-browser surface.\<close>

definition acceptBrowser :: "bool \<Rightarrow> state \<Rightarrow> bool" where
  "acceptBrowser supportedBrowser s =
     (if \<not> supportedBrowser \<and> localStorage s \<noteq> None
      then truthy (getItem s key_accepts)
      else supportedBrowser)"

definition on_accept :: "state \<Rightarrow> state" where
  "on_accept s =
     console_log [LStr ''User accepts the compatibility risks.'']
       (if localStorage s \<noteq> None then setItem key_accepts ''true'' s else s)"

definition compatibility_gate :: "bool \<Rightarrow> window \<Rightarrow> init_module \<Rightarrow> state \<Rightarrow> completion" where
  "compatibility_gate supportedBrowser w ini s =
     (if \<not> acceptBrowser supportedBrowser s
      then
        (let s1 = console_error [LStr ''Browser is missing required features.''] s;
             s2 = emit Call_showIncompatibleBrowser s1
         in case showIncompatibleBrowser ini of
              Confirms \<Rightarrow> config_hard_check w ini (on_accept s2)
            | NeverConfirms \<Rightarrow> (Inr Pending, s2))
      else config_hard_check w ini s)"

text \<open>Lines 134 to 152: the loaders are started, then waited for without failing.\<close>

definition parallel_preload :: "bool \<Rightarrow> window \<Rightarrow> init_module \<Rightarrow> state \<Rightarrow> completion" where
  "parallel_preload supportedBrowser w ini s =
     (let s1 = emit Call_preparePlatform (emit Call_loadOlm s)
      in case preparePlatform ini of
           Some e \<Rightarrow> (Inl e, s1)
         | None \<Rightarrow>
             await_settled [loadConfig ini]
               (\<lambda>s2. await_settled [loadSkin ini, loadTheme ini, loadLanguage ini]
                       (compatibility_gate supportedBrowser w ini)
                       (emit Call_loadSkin (emit Call_loadTheme
                         (emit Call_loadLanguage (emit Call_setupLogStorage s2)))))
               (emit Call_loadConfig s1))"

text \<open>Lines 113 to 132: the rageshake wait and the redirect to the mobile guide.\<close>

definition preventRedirect :: "fragparts \<Rightarrow> bool" where
  "preventRedirect fp =
     (truthy (map_of (params fp) ''client_secret'') \<or> length (location fp) > 0)"

definition isIos :: "window \<Rightarrow> bool" where
  "isIos w =
     ((str_includes ''iPad'' (userAgent w) \<or> str_includes ''iPhone'' (userAgent w) \<or>
       str_includes ''iPod'' (userAgent w)) \<and> \<not> MSStream w)"

definition isAndroid :: "window \<Rightarrow> bool" where
  "isAndroid w = str_includes ''Android'' (userAgent w)"

definition redirects :: "window \<Rightarrow> bool" where
  "redirects w =
     (\<not> preventRedirect (parsedFragment w) \<and> (isIos w \<or> isAndroid w) \<and>
      \<not> str_includes ''element_mobile_redirect_to_guide=false'' (cookie w))"

definition start_try :: "bool \<Rightarrow> window \<Rightarrow> init_module \<Rightarrow> state \<Rightarrow> completion" where
  "start_try supportedBrowser w ini =
     await_settled [rageshakePromise ini]
       (\<lambda>s. if redirects w
            then (Inr (Fulfilled ()), emit (Set_location_href ''mobile_guide/'') s)
            else parallel_preload supportedBrowser w ini s)"

text \<open>Lines 212 to 219: the \<^verbatim>\<open>catch\<close> clause; \<^verbatim>\<open>showError\<close> is awaited here.\<close>

definition start_catch :: "init_module \<Rightarrow> jserror \<Rightarrow> state \<Rightarrow> unit outcome \<times> state" where
  "start_catch ini error s =
     (let title = t ini ''Your Element is misconfigured'' [];
          messages =
            [or_else (translatedMessage error)
               (t ini ''Unexpected error preparing the app. See console for details.'' [])]
      in (showError ini title (Some messages),
          emit (Call_showError title (Some messages)) (console_error [LErr error] s)))"

definition start :: "bool \<Rightarrow> window \<Rightarrow> state \<Rightarrow> unit outcome \<times> state" where
  "start supportedBrowser w s =
     (case import_init w of
        Rejected e \<Rightarrow> (Rejected e, s)
      | Pending \<Rightarrow> (Pending, s)
      | Fulfilled ini \<Rightarrow>
          (case start_try supportedBrowser w ini s of
             (Inl error, s') \<Rightarrow> start_catch ini error s'
           | (Inr result, s') \<Rightarrow> (result, s')))"

section \<open>The module: probe, start, and the handler of a rejected start\<close>

definition fatal_iframe :: "bool \<Rightarrow> iframe" where
  "fatal_iframe supportedBrowser =
     \<lparr>sandbox = '''',
      src = (if supportedBrowser then ''static/unable-to-load.html''
             else ''static/incompatible-browser.html''),
      style = [(''width'', ''100%''), (''height'', ''100%''), (''position'', ''absolute''),
               (''top'', ''0''), (''left'', ''0''), (''right'', ''0''), (''bottom'', ''0''),
               (''border'', ''0'')]\<rparr>"

text \<open>
  The callback of \<^verbatim>\<open>start().catch\<close>. The page of the application has the element
  \<^verbatim>\<open>matrixchat\<close>, so \<^verbatim>\<open>getElementById\<close> finds it.
\<close>

definition start_catch_handler :: "bool \<Rightarrow> jserror \<Rightarrow> state \<Rightarrow> state" where
  "start_catch_handler supportedBrowser error s =
     emit (AppendChild ''matrixchat'' (fatal_iframe supportedBrowser))
       (emit Delete_body_style_height (console_error [LErr error] s))"

definition module_load :: "window \<Rightarrow> state \<Rightarrow> state" where
  "module_load w s =
     (let (supportedBrowser, s1) = checkBrowserFeatures w s
      in case start supportedBrowser w s1 of
           (Rejected error, s2) \<Rightarrow> start_catch_handler supportedBrowser error s2
         | (_, s2) \<Rightarrow> s2)"

section \<open>Events of a run\<close>

text \<open>
  The events a run adds to the trace; \<open>emits P s s'\<close> says that \<open>s'\<close> is \<open>s\<close> after some
  more events, each of which satisfies \<open>P\<close>, and that the storage is the same unless one
  of them is a \<^verbatim>\<open>setItem\<close>.
\<close>

definition since :: "state \<Rightarrow> state \<Rightarrow> event list" where
  "since s s' = drop (length (trace s)) (trace s')"

fun is_setItem :: "event \<Rightarrow> bool" where
  "is_setItem (Storage_setItem k v) = True"
| "is_setItem e = False"

fun routine :: "event \<Rightarrow> bool" where
  "routine (ConsoleError a) = True"
| "routine (ConsoleLog a) = True"
| "routine Call_loadOlm = True"
| "routine Call_preparePlatform = True"
| "routine Call_loadConfig = True"
| "routine Call_setupLogStorage = True"
| "routine Call_loadLanguage = True"
| "routine Call_loadTheme = True"
| "routine Call_loadSkin = True"
| "routine e = False"

definition emits :: "(event \<Rightarrow> bool) \<Rightarrow> state \<Rightarrow> state \<Rightarrow> bool" where
  "emits P s s' \<longleftrightarrow>
     (\<exists>evs. trace s' = trace s @ evs \<and> list_all P evs \<and>
        (list_all (\<lambda>e. \<not> is_setItem e) evs \<longrightarrow> localStorage s' = localStorage s))"

definition logged :: "event list \<Rightarrow> state \<Rightarrow> state" where
  "logged es s = s\<lparr>trace := trace s @ es\<rparr>"

definition missing_feature_line :: "string \<Rightarrow> event" where
  "missing_feature_line k = ConsoleError [LStr msg_missing_feature, LStr k]"

definition false_valued :: "modernizr \<Rightarrow> string list \<Rightarrow> string list" where
  "false_valued m ks = filter (\<lambda>k. property m k = JBool False) ks"

fun rejection_reasons :: "'a outcome list \<Rightarrow> jserror list" where
  "rejection_reasons [] = []"
| "rejection_reasons (Rejected e # ps) = e # rejection_reasons ps"
| "rejection_reasons (p # ps) = rejection_reasons ps"

definition user_confirms :: "window \<Rightarrow> bool" where
  "user_confirms w =
     (case import_init w of
        Fulfilled ini \<Rightarrow> showIncompatibleBrowser ini = Confirms
      | _ \<Rightarrow> False)"

definition rejection_lines :: "'a outcome list \<Rightarrow> event list" where
  "rejection_lines promises = map (\<lambda>e. ConsoleError [LErr e]) (rejection_reasons promises)"

fun is_showError :: "event \<Rightarrow> bool" where
  "is_showError (Call_showError title messages) = True"
| "is_showError e = False"

fun is_loadApp :: "event \<Rightarrow> bool" where
  "is_loadApp (Call_loadApp p) = True"
| "is_loadApp e = False"

definition surfaces :: "event list \<Rightarrow> event list" where
  "surfaces evs = filter (\<lambda>e. is_showError e \<or> is_loadApp e) evs"

definition pre_gate_events :: "init_module \<Rightarrow> event list" where
  "pre_gate_events ini =
     rejection_lines [rageshakePromise ini] @
     [Call_loadOlm, Call_preparePlatform, Call_loadConfig] @
     rejection_lines [loadConfig ini] @
     [Call_setupLogStorage, Call_loadLanguage, Call_loadTheme, Call_loadSkin] @
     rejection_lines [loadSkin ini, loadTheme ini, loadLanguage ini]"

fun before_check :: "event \<Rightarrow> bool" where
  "before_check Call_showIncompatibleBrowser = True"
| "before_check (Storage_setItem k v) = True"
| "before_check e = routine e"

section \<open>A sample environment\<close>

text \<open>
  Modelled from the spec: the feature-detection library's "API to register additional
  named tests before evaluation" (Modernizr itself is not among the sources): the result
  of the test is stored under its name.
\<close>

definition addTest_assign :: "string \<Rightarrow> jsval \<Rightarrow> modernizr \<Rightarrow> modernizr" where
  "addTest_assign name result m = AList.update name result m"

text \<open>An \<^verbatim>\<open>init\<close> module whose loaders all succeed, and a desktop browser.\<close>

definition sample_init :: init_module where
  "sample_init =
     \<lparr>rageshakePromise = Fulfilled (), setupLogStorage = Fulfilled (),
      preparePlatform = None, loadOlm = Fulfilled (), loadConfig = Fulfilled (),
      loadSkin = Fulfilled (), loadLanguage = Fulfilled (), loadTheme = Fulfilled (),
      loadApp = (\<lambda>p. Fulfilled ()), showError = (\<lambda>title messages. Fulfilled ()),
      showIncompatibleBrowser = Confirms,
      t = (\<lambda>key substitutions. concat (key # map snd substitutions))\<rparr>"

definition sample_window :: window where
  "sample_window =
     \<lparr>Modernizr = Some [(''es6collections'', JBool True), (''flexbox'', JBool True)],
      addTest = addTest_assign,
      promise_finally_is_function = True, regexp_prototype = True,
      regexp_dotAll_getter = True, object_fromEntries_is_function = True,
      MSStream = False, userAgent = ''Mozilla/5.0 (X11; Linux x86_64)'', cookie = [],
      parsedFragment = \<lparr>params = [], location = []\<rparr>,
      import_init = Fulfilled sample_init\<rparr>"

definition fresh :: state where
  "fresh = \<lparr>trace = [], localStorage = Some []\<rparr>"

definition sample_error :: jserror where
  "sample_error = JsError None None"

section \<open>Bounding the events of each stage\<close>

lemma emits_refl: "emits P s s"
  by (simp add: emits_def)

lemma emits_trans:
  assumes "emits P s s'" and "emits P s' s''"
  shows "emits P s s''"
proof -
  from assms(1) obtain evs where 1: "trace s' = trace s @ evs" "list_all P evs"
    "list_all (\<lambda>e. \<not> is_setItem e) evs \<longrightarrow> localStorage s' = localStorage s"
    by (auto simp: emits_def)
  from assms(2) obtain evs' where 2: "trace s'' = trace s' @ evs'" "list_all P evs'"
    "list_all (\<lambda>e. \<not> is_setItem e) evs' \<longrightarrow> localStorage s'' = localStorage s'"
    by (auto simp: emits_def)
  have "trace s'' = trace s @ (evs @ evs')" using 1 2 by simp
  moreover have "list_all P (evs @ evs')" using 1 2 by simp
  moreover have "list_all (\<lambda>e. \<not> is_setItem e) (evs @ evs') \<longrightarrow> localStorage s'' = localStorage s"
    using 1 2 by simp
  ultimately show ?thesis unfolding emits_def by blast
qed

lemma emits_emit: "P e \<Longrightarrow> \<not> is_setItem e \<Longrightarrow> emits P s (emit e s)"
  by (simp add: emits_def emit_def)

lemma emits_setItem: "P (Storage_setItem k v) \<Longrightarrow> emits P s (setItem k v s)"
  by (simp add: emits_def emit_def setItem_def)

lemma localStorage_emit: "localStorage (emit e s) = localStorage s"
  by (simp add: emit_def)

lemma localStorage_settled: "localStorage (snd (settled promises s)) = localStorage s"
  by (induction promises arbitrary: s)
     (simp_all add: console_error_def localStorage_emit split: outcome.splits)

lemma emits_settled:
  "(\<And>a. P (ConsoleError a)) \<Longrightarrow> emits P s (snd (settled promises s))"
proof (induction promises arbitrary: s)
  case Nil
  show ?case by (simp add: emits_refl)
next
  case (Cons p ps)
  show ?case
  proof (cases p)
    case (Fulfilled v)
    then show ?thesis using Cons by simp
  next
    case (Rejected e)
    have "emits P s (console_error [LErr e] s)"
      unfolding console_error_def by (rule emits_emit) (simp_all add: Cons.prems)
    moreover have "emits P (console_error [LErr e] s) (snd (settled ps (console_error [LErr e] s)))"
      by (rule Cons.IH) (rule Cons.prems)
    ultimately show ?thesis using Rejected by (simp add: emits_trans)
  next
    case Pending
    then show ?thesis by (simp add: emits_refl)
  qed
qed

lemma emits_await: "emits P s (snd (k s)) \<Longrightarrow> emits P s (snd (await prom k s))"
  by (cases prom) (simp_all add: await_def emits_refl)

lemma snd_await_Pair: "snd (await prom (Pair c) s) = s"
  by (cases prom) (simp_all add: await_def)

lemma emits_await_settled:
  assumes "\<And>a. P (ConsoleError a)"
    and "\<And>s'. localStorage s' = localStorage s \<Longrightarrow> emits P s' (snd (k s'))"
  shows "emits P s (snd (await_settled promises k s))"
proof -
  obtain r s1 where r: "settled promises s = (r, s1)" by (cases "settled promises s")
  have 1: "emits P s s1" using emits_settled [of P s promises] assms(1) r by simp
  have 2: "localStorage s1 = localStorage s" using localStorage_settled [of promises s] r by simp
  show ?thesis
  proof (cases r)
    case (Fulfilled v)
    then show ?thesis using r 1 assms(2) [OF 2] by (simp add: await_settled_def emits_trans)
  next
    case (Rejected e)
    then show ?thesis using r 1 by (simp add: await_settled_def)
  next
    case Pending
    then show ?thesis using r 1 by (simp add: await_settled_def)
  qed
qed

lemma emits_app_load_critical_path:
  assumes R: "\<And>e. routine e \<Longrightarrow> P e"
    and A: "loadOlm ini = Fulfilled () \<Longrightarrow> P (Call_loadApp (params (parsedFragment w)))"
  shows "emits P s (snd (app_load_critical_path w ini s))"
proof (cases "loadOlm ini")
  case (Fulfilled u)
  have "P (Call_loadApp (params (parsedFragment w)))" using A Fulfilled by simp
  then show ?thesis
    unfolding app_load_critical_path_def
    by (intro emits_await emits_await_settled R)
       (simp_all add: emits_emit snd_await_Pair)
next
  case (Rejected e)
  then show ?thesis by (simp add: app_load_critical_path_def await_def emits_refl)
next
  case Pending
  then show ?thesis by (simp add: app_load_critical_path_def await_def emits_refl)
qed

lemma logged_Nil: "logged [] s = s"
  by (simp add: logged_def)

lemma logged_emit: "logged es (emit e s) = logged (e # es) s"
  by (simp add: logged_def emit_def)

section \<open>The feature probe\<close>

lemma feature_loop_defined:
  "\<forall>k\<in>set ks. property m k \<noteq> JUndefined \<Longrightarrow>
   feature_loop m ks fc s =
     (fc \<and> false_valued m ks = [], logged (map missing_feature_line (false_valued m ks)) s)"
proof (induction ks arbitrary: fc s)
  case Nil
  show ?case by (simp add: false_valued_def logged_Nil)
next
  case (Cons k ks)
  then show ?case
    by (simp add: false_valued_def console_error_def logged_emit missing_feature_line_def)
qed

lemma feature_loop_undefined:
  "\<forall>k'\<in>set pre. property m k' \<noteq> JUndefined \<Longrightarrow> property m k = JUndefined \<Longrightarrow>
   feature_loop m (pre @ k # post) fc s =
     (False, logged (map missing_feature_line (false_valued m pre) @
                     [ConsoleError [LStr msg_no_results, LStr k]]) s)"
proof (induction pre arbitrary: fc s)
  case Nil
  then show ?case by (simp add: false_valued_def console_error_def emit_def logged_def)
next
  case (Cons k' pre)
  then show ?case
    by (simp add: false_valued_def console_error_def logged_emit missing_feature_line_def)
qed

lemma false_valued_nonempty:
  "k \<in> set ks \<Longrightarrow> property m k = JBool False \<Longrightarrow> false_valued m ks \<noteq> []"
  by (auto simp: false_valued_def filter_empty_conv)

text \<open>
  C2. When the Modernizr object, after the three tests are registered, has no key whose
  value is \<^verbatim>\<open>undefined\<close> and at least one key whose value is \<^verbatim>\<open>false\<close>, the probe
  returns \<^verbatim>\<open>false\<close>, and what it logs is exactly one "Browser missing feature" line for
  every false-valued key, in the order of \<^verbatim>\<open>Object.keys\<close>: the loop goes on after the
  first such key.
\<close>

theorem checkBrowserFeatures_logs_every_false_key:
  assumes "Modernizr w = Some m0"
    and "\<forall>k\<in>set (Object_keys (registered w m0)). property (registered w m0) k \<noteq> JUndefined"
    and "\<exists>k\<in>set (Object_keys (registered w m0)). property (registered w m0) k = JBool False"
  shows "checkBrowserFeatures w s =
           (False, logged (map missing_feature_line
                     (false_valued (registered w m0) (Object_keys (registered w m0)))) s)"
proof -
  from assms(3) have "false_valued (registered w m0) (Object_keys (registered w m0)) \<noteq> []"
    using false_valued_nonempty by blast
  then show ?thesis
    using assms(1) feature_loop_defined [OF assms(2), of True s]
    by (simp add: checkBrowserFeatures_def Let_def)
qed

theorem checkBrowserFeatures_logs_every_false_key_witness:
  "Modernizr (sample_window\<lparr>Modernizr := Some [(''es6collections'', JBool False),
       (''flexbox'', JBool True), (''video'', JObject), (''svg'', JBool False)],
       object_fromEntries_is_function := False\<rparr>)
     = Some [(''es6collections'', JBool False), (''flexbox'', JBool True),
             (''video'', JObject), (''svg'', JBool False)] \<and>
   checkBrowserFeatures
     (sample_window\<lparr>Modernizr := Some [(''es6collections'', JBool False),
       (''flexbox'', JBool True), (''video'', JObject), (''svg'', JBool False)],
       object_fromEntries_is_function := False\<rparr>) fresh
     = (False, \<lparr>trace = [missing_feature_line ''es6collections'', missing_feature_line ''svg'',
                         missing_feature_line ''objectfromentries''],
                localStorage = Some []\<rparr>)"
  using checkBrowserFeatures_logs_every_false_key
    [of "sample_window\<lparr>Modernizr := Some [(''es6collections'', JBool False),
       (''flexbox'', JBool True), (''video'', JObject), (''svg'', JBool False)],
       object_fromEntries_is_function := False\<rparr>"
       "[(''es6collections'', JBool False), (''flexbox'', JBool True),
         (''video'', JObject), (''svg'', JBool False)]" fresh]
  by (simp add: sample_window_def addTest_assign_def registered_def Object_keys_def
      property_def false_valued_def fresh_def logged_def test_objectfromentries_def
      test_regexpdotall_def test_promiseprototypefinally_def)

text \<open>
  C3. When the Modernizr global is missing the probe returns \<^verbatim>\<open>false\<close> at once and logs
  the "global is missing" line only. When a key of the object holds \<^verbatim>\<open>undefined\<close>
  (\<open>k\<close>, the first such key, after the keys \<open>pre\<close> and before the keys \<open>post\<close>), the
  probe returns \<^verbatim>\<open>false\<close> having logged the missing-feature lines of \<open>pre\<close> and then
  the "no results" line for \<open>k\<close>: nothing depends on \<open>post\<close>. The three diagnostics are
  different texts.
\<close>

theorem checkBrowserFeatures_undefined_returns_at_once:
  "(Modernizr w0 = None \<longrightarrow>
      checkBrowserFeatures w0 s0 = (False, logged [ConsoleError [LStr msg_modernizr_missing]] s0)) \<and>
   (Modernizr w = Some m0 \<and> Object_keys (registered w m0) = pre @ k # post \<and>
    property (registered w m0) k = JUndefined \<and>
    (\<forall>k'\<in>set pre. property (registered w m0) k' \<noteq> JUndefined) \<longrightarrow>
      checkBrowserFeatures w s =
        (False, logged (map missing_feature_line (false_valued (registered w m0) pre) @
                        [ConsoleError [LStr msg_no_results, LStr k]]) s)) \<and>
   msg_no_results \<noteq> msg_missing_feature \<and>
   msg_modernizr_missing \<noteq> msg_missing_feature \<and>
   msg_modernizr_missing \<noteq> msg_no_results"
proof (intro conjI impI)
  assume "Modernizr w0 = None"
  then show "checkBrowserFeatures w0 s0 =
      (False, logged [ConsoleError [LStr msg_modernizr_missing]] s0)"
    by (simp add: checkBrowserFeatures_def console_error_def emit_def logged_def)
next
  assume a: "Modernizr w = Some m0 \<and> Object_keys (registered w m0) = pre @ k # post \<and>
    property (registered w m0) k = JUndefined \<and>
    (\<forall>k'\<in>set pre. property (registered w m0) k' \<noteq> JUndefined)"
  then have "feature_loop (registered w m0) (pre @ k # post) True s =
      (False, logged (map missing_feature_line (false_valued (registered w m0) pre) @
                      [ConsoleError [LStr msg_no_results, LStr k]]) s)"
    using feature_loop_undefined by blast
  then show "checkBrowserFeatures w s =
      (False, logged (map missing_feature_line (false_valued (registered w m0) pre) @
                      [ConsoleError [LStr msg_no_results, LStr k]]) s)"
    using a by (simp add: checkBrowserFeatures_def Let_def)
next
  show "msg_no_results \<noteq> msg_missing_feature"
    by (simp add: msg_no_results_def msg_missing_feature_def)
  show "msg_modernizr_missing \<noteq> msg_missing_feature"
    by (simp add: msg_modernizr_missing_def msg_missing_feature_def)
  show "msg_modernizr_missing \<noteq> msg_no_results"
    by (simp add: msg_modernizr_missing_def msg_no_results_def)
qed

theorem checkBrowserFeatures_undefined_returns_at_once_witness:
  "checkBrowserFeatures (sample_window\<lparr>Modernizr := None\<rparr>) fresh =
     (False, \<lparr>trace = [ConsoleError [LStr msg_modernizr_missing]], localStorage = Some []\<rparr>) \<and>
   checkBrowserFeatures
     (sample_window\<lparr>Modernizr := Some [(''es6collections'', JBool False),
        (''flexbox'', JUndefined), (''svg'', JBool False)]\<rparr>) fresh =
     (False, \<lparr>trace = [missing_feature_line ''es6collections'',
                         ConsoleError [LStr msg_no_results, LStr ''flexbox'']],
              localStorage = Some []\<rparr>)"
  using checkBrowserFeatures_undefined_returns_at_once
    [of "sample_window\<lparr>Modernizr := None\<rparr>" fresh
        "sample_window\<lparr>Modernizr := Some [(''es6collections'', JBool False),
           (''flexbox'', JUndefined), (''svg'', JBool False)]\<rparr>"
        "[(''es6collections'', JBool False), (''flexbox'', JUndefined), (''svg'', JBool False)]"
        "[''es6collections'']" "''flexbox''"
        "[''svg'', ''promiseprototypefinally'', ''regexpdotall'', ''objectfromentries'']" fresh]
  by (simp add: sample_window_def addTest_assign_def registered_def Object_keys_def
      property_def false_valued_def fresh_def logged_def test_objectfromentries_def
      test_regexpdotall_def test_promiseprototypefinally_def)

section \<open>The helper settled\<close>

lemma settled_char:
  "settled promises s =
     (if Pending \<in> set promises then Pending else Fulfilled (),
      logged (map (\<lambda>e. ConsoleError [LErr e])
                (rejection_reasons (takeWhile (\<lambda>p. p \<noteq> Pending) promises))) s)"
proof (induction promises arbitrary: s)
  case Nil
  show ?case by (simp add: logged_Nil)
next
  case (Cons p ps)
  show ?case
  proof (cases p)
    case (Fulfilled v)
    then show ?thesis using Cons by simp
  next
    case (Rejected e)
    then show ?thesis using Cons by (simp add: console_error_def logged_emit)
  next
    case Pending
    then show ?thesis by (simp add: logged_Nil)
  qed
qed

text \<open>
  C4, as the code has it. The helper goes through the list in order. It never rejects.
  It fulfils exactly when no promise of the list stays pending; otherwise it stays
  pending itself, at the first such promise. What it logs is one \<^verbatim>\<open>console.error\<close> per
  rejected promise before that point, in list order, and it changes nothing else. The
  promises are values the helper only reads: the outcome of each is the same afterwards.
\<close>

theorem settled_logs_rejections_in_order:
  "settled promises s =
     (if Pending \<in> set promises then Pending else Fulfilled (),
      logged (map (\<lambda>e. ConsoleError [LErr e])
                (rejection_reasons (takeWhile (\<lambda>p. p \<noteq> Pending) promises))) s) \<and>
   fst (settled promises s) \<noteq> Rejected e"
  by (simp add: settled_char)

theorem settled_three_tasks_witness:
  "settled [Rejected (JsError None (Some ''first'')), Fulfilled (2::nat),
            Rejected (JsError None (Some ''third''))] fresh =
     (Fulfilled (),
      \<lparr>trace = [ConsoleError [LErr (JsError None (Some ''first''))],
                ConsoleError [LErr (JsError None (Some ''third''))]],
       localStorage = Some []\<rparr>)"
  using settled_logs_rejections_in_order
    [of "[Rejected (JsError None (Some ''first'')), Fulfilled (2::nat),
          Rejected (JsError None (Some ''third''))]" fresh]
  by (simp add: fresh_def logged_def)

theorem settled_pending_counterexample:
  "fst (settled [Pending :: unit outcome] fresh) \<noteq> Fulfilled ()"
  by simp

section \<open>The events of start, stage by stage\<close>

lemma emits_app_load:
  assumes R: "\<And>e. routine e \<Longrightarrow> P e"
    and A: "P (Call_loadApp (params (parsedFragment w)))"
  shows "emits P s (snd (app_load_critical_path w ini s))"
  using emits_app_load_critical_path [of P ini w s] R A by blast

lemma emits_return_showError:
  "P (Call_showError title messages) \<Longrightarrow> emits P s (snd (return_showError ini title messages s))"
  by (simp add: return_showError_def emits_emit)

lemma emits_config_hard_check:
  assumes R: "\<And>e. routine e \<Longrightarrow> P e"
    and E: "\<And>title messages. P (Call_showError title messages)"
    and A: "loadConfig ini = Fulfilled () \<Longrightarrow> P (Call_loadApp (params (parsedFragment w)))"
  shows "emits P s (snd (config_hard_check w ini s))"
proof (cases "loadConfig ini")
  case (Fulfilled u)
  then show ?thesis using emits_app_load [of P w s ini] R A
    by (simp add: config_hard_check_def)
next
  case (Rejected error)
  then show ?thesis
    by (simp add: config_hard_check_def emits_return_showError E
        split: option.splits inner_error.splits)
next
  case Pending
  then show ?thesis by (simp add: config_hard_check_def emits_refl)
qed

lemma acceptBrowser_cong:
  "localStorage s' = localStorage s \<Longrightarrow> acceptBrowser supported s' = acceptBrowser supported s"
  by (simp add: acceptBrowser_def getItem_def)

lemma emits_on_accept:
  assumes R: "\<And>e. routine e \<Longrightarrow> P e"
    and W: "localStorage s \<noteq> None \<Longrightarrow> P (Storage_setItem key_accepts ''true'')"
  shows "emits P s (on_accept s)"
proof (cases "localStorage s = None")
  case True
  then show ?thesis by (simp add: on_accept_def console_log_def emits_emit R)
next
  case False
  have 1: "emits P s (setItem key_accepts ''true'' s)" using W False by (simp add: emits_setItem)
  have 2: "emits P (setItem key_accepts ''true'' s)
             (console_log [LStr ''User accepts the compatibility risks.'']
               (setItem key_accepts ''true'' s))"
    by (simp add: console_log_def emits_emit R)
  show ?thesis using False emits_trans [OF 1 2] by (simp add: on_accept_def)
qed

lemma emits_compatibility_gate:
  assumes R: "\<And>e. routine e \<Longrightarrow> P e"
    and S: "\<not> acceptBrowser supported s \<Longrightarrow> P Call_showIncompatibleBrowser"
    and W: "\<lbrakk>\<not> acceptBrowser supported s; showIncompatibleBrowser ini = Confirms;
             localStorage s \<noteq> None\<rbrakk> \<Longrightarrow> P (Storage_setItem key_accepts ''true'')"
    and K: "\<And>s'. acceptBrowser supported s \<or> showIncompatibleBrowser ini = Confirms \<Longrightarrow>
             emits P s' (snd (config_hard_check w ini s'))"
  shows "emits P s (snd (compatibility_gate supported w ini s))"
proof (cases "acceptBrowser supported s")
  case True
  then show ?thesis using K by (simp add: compatibility_gate_def)
next
  case False
  define s1 where "s1 = console_error [LStr ''Browser is missing required features.''] s"
  define s2 where "s2 = emit Call_showIncompatibleBrowser s1"
  have 1: "emits P s s1" unfolding s1_def console_error_def by (simp add: emits_emit R)
  have 2: "emits P s1 s2" unfolding s2_def using S False by (simp add: emits_emit)
  have 12: "emits P s s2" using emits_trans [OF 1 2] .
  have ls: "localStorage s2 = localStorage s"
    by (simp add: s2_def s1_def console_error_def localStorage_emit)
  show ?thesis
  proof (cases "showIncompatibleBrowser ini")
    case Confirms
    have 3: "emits P s2 (on_accept s2)"
      by (rule emits_on_accept) (use R W False Confirms ls in auto)
    have 4: "emits P (on_accept s2) (snd (config_hard_check w ini (on_accept s2)))"
      using K Confirms by simp
    show ?thesis using False Confirms emits_trans [OF 12 emits_trans [OF 3 4]]
      by (simp add: compatibility_gate_def Let_def s1_def s2_def)
  next
    case NeverConfirms
    then show ?thesis using False 12
      by (simp add: compatibility_gate_def Let_def s1_def s2_def)
  qed
qed

lemma emits_parallel_preload:
  assumes R: "\<And>e. routine e \<Longrightarrow> P e"
    and K: "\<And>s'. localStorage s' = localStorage s \<Longrightarrow>
             emits P s' (snd (compatibility_gate supported w ini s'))"
  shows "emits P s (snd (parallel_preload supported w ini s))"
proof -
  define s1 where "s1 = emit Call_preparePlatform (emit Call_loadOlm s)"
  have 1: "emits P s s1" unfolding s1_def
    by (rule emits_trans [of P s "emit Call_loadOlm s"]) (simp_all add: emits_emit R)
  have ls1: "localStorage s1 = localStorage s" by (simp add: s1_def localStorage_emit)
  show ?thesis
  proof (cases "preparePlatform ini")
    case (Some e)
    then show ?thesis using 1 by (simp add: parallel_preload_def Let_def s1_def)
  next
    case None
    have 2: "emits P s1 (emit Call_loadConfig s1)" by (simp add: emits_emit R)
    have 3: "emits P (emit Call_loadConfig s1)
      (snd (await_settled [loadConfig ini]
        (\<lambda>s2. await_settled [loadSkin ini, loadTheme ini, loadLanguage ini]
                (compatibility_gate supported w ini)
                (emit Call_loadSkin (emit Call_loadTheme
                  (emit Call_loadLanguage (emit Call_setupLogStorage s2)))))
        (emit Call_loadConfig s1)))"
    proof (rule emits_await_settled)
      fix a show "P (ConsoleError a)" by (simp add: R)
    next
      fix s2 :: state assume ls2: "localStorage s2 = localStorage (emit Call_loadConfig s1)"
      define s3 where "s3 = emit Call_loadSkin (emit Call_loadTheme
                  (emit Call_loadLanguage (emit Call_setupLogStorage s2)))"
      have a: "emits P s2 s3" unfolding s3_def
        by (intro emits_trans [OF emits_emit emits_trans [OF emits_emit emits_trans [OF emits_emit emits_emit]]])
           (simp_all add: R)
      have ls3: "localStorage s3 = localStorage s"
        by (simp add: s3_def localStorage_emit ls2 ls1)
      have b: "emits P s3 (snd (await_settled [loadSkin ini, loadTheme ini, loadLanguage ini]
                (compatibility_gate supported w ini) s3))"
      proof (rule emits_await_settled)
        fix a show "P (ConsoleError a)" by (simp add: R)
      next
        fix s' :: state assume "localStorage s' = localStorage s3"
        then show "emits P s' (snd (compatibility_gate supported w ini s'))"
          using K ls3 by simp
      qed
      show "emits P s2 (snd (await_settled [loadSkin ini, loadTheme ini, loadLanguage ini]
                (compatibility_gate supported w ini)
                (emit Call_loadSkin (emit Call_loadTheme
                  (emit Call_loadLanguage (emit Call_setupLogStorage s2))))))"
        using emits_trans [OF a b] by (simp add: s3_def)
    qed
    show ?thesis using None emits_trans [OF 1 emits_trans [OF 2 3]]
      by (simp add: parallel_preload_def Let_def s1_def)
  qed
qed

lemma emits_start_try:
  assumes R: "\<And>e. routine e \<Longrightarrow> P e"
    and H: "redirects w \<Longrightarrow> P (Set_location_href ''mobile_guide/'')"
    and K: "\<And>s'. \<lbrakk>\<not> redirects w; localStorage s' = localStorage s\<rbrakk> \<Longrightarrow>
             emits P s' (snd (parallel_preload supported w ini s'))"
  shows "emits P s (snd (start_try supported w ini s))"
  unfolding start_try_def
proof (rule emits_await_settled)
  fix a show "P (ConsoleError a)" by (simp add: R)
next
  fix s' :: state assume "localStorage s' = localStorage s"
  then show "emits P s'
          (snd (if redirects w
                then (Inr (Fulfilled ()), emit (Set_location_href ''mobile_guide/'') s')
                else parallel_preload supported w ini s'))"
    using H K by (simp add: emits_emit)
qed

lemma emits_start_catch:
  assumes R: "\<And>e. routine e \<Longrightarrow> P e"
    and E: "\<And>title messages. P (Call_showError title messages)"
  shows "emits P s (snd (start_catch ini error s))"
proof -
  have 1: "emits P s (console_error [LErr error] s)"
    by (simp add: console_error_def emits_emit R)
  show ?thesis unfolding start_catch_def Let_def snd_conv
    by (rule emits_trans [OF 1]) (simp add: emits_emit E)
qed

lemma emits_start:
  assumes R: "\<And>e. routine e \<Longrightarrow> P e"
    and E: "\<And>title messages. P (Call_showError title messages)"
    and H: "redirects w \<Longrightarrow> P (Set_location_href ''mobile_guide/'')"
    and S: "\<not> acceptBrowser supported s \<Longrightarrow> P Call_showIncompatibleBrowser"
    and W: "\<And>ini. \<lbrakk>import_init w = Fulfilled ini; \<not> acceptBrowser supported s;
             showIncompatibleBrowser ini = Confirms; localStorage s \<noteq> None\<rbrakk>
            \<Longrightarrow> P (Storage_setItem key_accepts ''true'')"
    and A: "\<And>ini. \<lbrakk>import_init w = Fulfilled ini; \<not> redirects w;
             acceptBrowser supported s \<or> showIncompatibleBrowser ini = Confirms;
             loadConfig ini = Fulfilled ()\<rbrakk>
            \<Longrightarrow> P (Call_loadApp (params (parsedFragment w)))"
  shows "emits P s (snd (start supported w s))"
proof (cases "import_init w")
  case (Fulfilled ini)
  have gate: "emits P s' (snd (compatibility_gate supported w ini s'))"
    if nr: "\<not> redirects w" and ls: "localStorage s' = localStorage s" for s' :: state
  proof (rule emits_compatibility_gate)
    fix e assume "routine e" then show "P e" by (rule R)
  next
    assume "\<not> acceptBrowser supported s'"
    then show "P Call_showIncompatibleBrowser" using S acceptBrowser_cong [OF ls] by simp
  next
    assume "\<not> acceptBrowser supported s'" "showIncompatibleBrowser ini = Confirms"
      "localStorage s' \<noteq> None"
    then show "P (Storage_setItem key_accepts ''true'')"
      using W [OF Fulfilled] acceptBrowser_cong [OF ls] ls by simp
  next
    fix s'' :: state assume "acceptBrowser supported s' \<or> showIncompatibleBrowser ini = Confirms"
    then have acc: "acceptBrowser supported s \<or> showIncompatibleBrowser ini = Confirms"
      using acceptBrowser_cong [OF ls] by simp
    show "emits P s'' (snd (config_hard_check w ini s''))"
      by (rule emits_config_hard_check) (use R E A [OF Fulfilled nr acc] in auto)
  qed
  have pre: "emits P s' (snd (parallel_preload supported w ini s'))"
    if nr: "\<not> redirects w" and ls: "localStorage s' = localStorage s" for s' :: state
    by (rule emits_parallel_preload) (use R gate [OF nr] ls in auto)
  have tr: "emits P s (snd (start_try supported w ini s))"
    by (rule emits_start_try) (use R H pre in auto)
  obtain c s1 where c: "start_try supported w ini s = (c, s1)"
    by (cases "start_try supported w ini s")
  show ?thesis
  proof (cases c)
    case (Inl error)
    have "emits P s1 (snd (start_catch ini error s1))"
      by (rule emits_start_catch) (use R E in auto)
    then show ?thesis using Fulfilled c Inl tr by (simp add: start_def emits_trans)
  next
    case (Inr result)
    then show ?thesis using Fulfilled c tr by (simp add: start_def)
  qed
next
  case (Rejected e)
  then show ?thesis by (simp add: start_def emits_refl)
next
  case Pending
  then show ?thesis by (simp add: start_def emits_refl)
qed

lemma emits_since: "emits P s s' \<Longrightarrow> list_all P (since s s')"
  by (auto simp: emits_def since_def)

lemma emits_localStorage:
  "emits P s s' \<Longrightarrow> (\<And>k v. \<not> P (Storage_setItem k v)) \<Longrightarrow> localStorage s' = localStorage s"
proof -
  assume e: "emits P s s'" and n: "\<And>k v. \<not> P (Storage_setItem k v)"
  from e obtain evs where evs: "trace s' = trace s @ evs" "list_all P evs"
    "list_all (\<lambda>e. \<not> is_setItem e) evs \<longrightarrow> localStorage s' = localStorage s"
    by (auto simp: emits_def)
  have "\<not> is_setItem x" if "x \<in> set evs" for x
  proof (cases x)
    case (Storage_setItem k v)
    then show ?thesis using evs(2) that n by (auto simp: list_all_iff)
  qed simp_all
  then have "list_all (\<lambda>e. \<not> is_setItem e) evs" by (simp add: list_all_iff)
  then show ?thesis using evs(3) by simp
qed

section \<open>The compatibility gate and the redirect\<close>

lemma acceptBrowser_iff:
  "acceptBrowser supported s \<longleftrightarrow> supported \<or> truthy (getItem s key_accepts)"
  by (auto simp: acceptBrowser_def getItem_def truthy_def)

lemma list_all_since_D: "list_all P (since s s') \<Longrightarrow> e \<in> set (since s s') \<Longrightarrow> P e"
  by (simp add: list_all_iff)

lemma no_loadApp_without_acceptance:
  assumes "\<not> acceptBrowser supported s" and "\<not> user_confirms w"
  shows "Call_loadApp p \<notin> set (since s (snd (start supported w s)))"
proof -
  have "emits (\<lambda>e. e \<noteq> Call_loadApp p) s (snd (start supported w s))"
  proof (rule emits_start)
    fix e assume "routine e" then show "e \<noteq> Call_loadApp p" by auto
  next
    fix ini assume "import_init w = Fulfilled ini"
      "acceptBrowser supported s \<or> showIncompatibleBrowser ini = Confirms"
    then show "Call_loadApp (params (parsedFragment w)) \<noteq> Call_loadApp p"
      using assms by (simp add: user_confirms_def)
  qed simp_all
  then show ?thesis using emits_since list_all_since_D by blast
qed

text \<open>
  C1. In every run of \<^verbatim>\<open>start\<close>, \<^verbatim>\<open>loadApp\<close> is invoked only if the probe's verdict
  \<^verbatim>\<open>supportedBrowser\<close> is true, or the stored flag \<^verbatim>\<open>mx_accepts_unsupported_browser\<close> is set
  (a non-empty item of \<^verbatim>\<open>localStorage\<close>), or the incompatible-browser surface invoked the
  callback it was given. In particular, when \<^verbatim>\<open>acceptBrowser\<close> is false and the user never
  confirms, \<^verbatim>\<open>loadApp\<close> is not invoked.
\<close>

theorem loadApp_only_after_acceptance:
  "(Call_loadApp p \<in> set (since s (snd (start supportedBrowser w s))) \<longrightarrow>
      supportedBrowser \<or> truthy (getItem s key_accepts) \<or> user_confirms w) \<and>
   (\<not> acceptBrowser supportedBrowser s \<and> \<not> user_confirms w \<longrightarrow>
      Call_loadApp p \<notin> set (since s (snd (start supportedBrowser w s))))"
  using no_loadApp_without_acceptance [of supportedBrowser s w p]
  unfolding acceptBrowser_iff by blast

lemmas run_defs = start_def start_try_def parallel_preload_def compatibility_gate_def
  config_hard_check_def app_load_critical_path_def await_def await_settled_def
  return_showError_def start_catch_def on_accept_def acceptBrowser_def redirects_def
  preventRedirect_def isIos_def isAndroid_def truthy_def getItem_def setItem_def
  emit_def console_error_def console_log_def since_def key_accepts_def or_else_def
  config_error_messages_def

lemmas sample_defs = sample_window_def sample_init_def fresh_def

theorem loadApp_only_after_acceptance_witness:
  "Call_loadApp [] \<in> set (since fresh (snd (start True sample_window fresh))) \<and>
   \<not> acceptBrowser False fresh \<and>
   \<not> user_confirms (sample_window\<lparr>import_init :=
        Fulfilled (sample_init\<lparr>showIncompatibleBrowser := NeverConfirms\<rparr>)\<rparr>) \<and>
   Call_loadApp [] \<notin> set (since fresh (snd (start False
      (sample_window\<lparr>import_init :=
        Fulfilled (sample_init\<lparr>showIncompatibleBrowser := NeverConfirms\<rparr>)\<rparr>) fresh)))"
  using loadApp_only_after_acceptance [of "[]" fresh True sample_window]
    loadApp_only_after_acceptance [of "[]" fresh False
      "sample_window\<lparr>import_init :=
        Fulfilled (sample_init\<lparr>showIncompatibleBrowser := NeverConfirms\<rparr>)\<rparr>"]
  by (simp add: run_defs sample_defs user_confirms_def)

text \<open>
  C8, as the code has it. When the fragment has a non-empty \<^verbatim>\<open>client_secret\<close> parameter,
  or a non-empty routing location, the page is never sent to the mobile guide; and
  whenever \<^verbatim>\<open>loadApp\<close> is invoked, its argument is the parsed fragment's parameters,
  unchanged. A \<^verbatim>\<open>client_secret\<close> that is present but empty is falsy and does not suppress
  the redirect.
\<close>

theorem redirect_suppressed_and_params_forwarded:
  "(truthy (map_of (params (parsedFragment w)) ''client_secret'') \<or>
    location (parsedFragment w) \<noteq> [] \<longrightarrow>
      Set_location_href h \<notin> set (since s (snd (start supportedBrowser w s)))) \<and>
   (Call_loadApp p \<in> set (since s (snd (start supportedBrowser w s))) \<longrightarrow>
      p = params (parsedFragment w))"
proof (intro conjI impI)
  assume a: "truthy (map_of (params (parsedFragment w)) ''client_secret'') \<or>
    location (parsedFragment w) \<noteq> []"
  then have nr: "\<not> redirects w" by (auto simp: redirects_def preventRedirect_def)
  have "emits (\<lambda>e. e \<noteq> Set_location_href h) s (snd (start supportedBrowser w s))"
  proof (rule emits_start)
    fix e assume "routine e" then show "e \<noteq> Set_location_href h" by auto
  next
    assume "redirects w" then show "Set_location_href ''mobile_guide/'' \<noteq> Set_location_href h"
      using nr by simp
  qed simp_all
  then show "Set_location_href h \<notin> set (since s (snd (start supportedBrowser w s)))"
    using emits_since list_all_since_D by blast
next
  assume b: "Call_loadApp p \<in> set (since s (snd (start supportedBrowser w s)))"
  have "emits (\<lambda>e. \<forall>q. e = Call_loadApp q \<longrightarrow> q = params (parsedFragment w)) s
          (snd (start supportedBrowser w s))"
  proof (rule emits_start)
    fix e assume "routine e"
    then show "\<forall>q. e = Call_loadApp q \<longrightarrow> q = params (parsedFragment w)" by auto
  qed simp_all
  then have "list_all (\<lambda>e. \<forall>q. e = Call_loadApp q \<longrightarrow> q = params (parsedFragment w))
               (since s (snd (start supportedBrowser w s)))"
    by (rule emits_since)
  then show "p = params (parsedFragment w)" using b by (auto simp: list_all_iff)
qed

theorem redirect_suppressed_and_params_forwarded_witness:
  "truthy (map_of (params (parsedFragment (sample_window\<lparr>
        userAgent := ''Mozilla/5.0 (Linux; Android 11; Pixel 5)'',
        parsedFragment := \<lparr>params = [(''client_secret'', ''xyz'')], location = ''/room/a''\<rparr>\<rparr>)))
      ''client_secret'') \<and>
   Set_location_href ''mobile_guide/'' \<notin> set (since fresh (snd (start True (sample_window\<lparr>
        userAgent := ''Mozilla/5.0 (Linux; Android 11; Pixel 5)'',
        parsedFragment := \<lparr>params = [(''client_secret'', ''xyz'')], location = ''/room/a''\<rparr>\<rparr>)
      fresh))) \<and>
   Call_loadApp [(''client_secret'', ''xyz'')] \<in> set (since fresh (snd (start True (sample_window\<lparr>
        userAgent := ''Mozilla/5.0 (Linux; Android 11; Pixel 5)'',
        parsedFragment := \<lparr>params = [(''client_secret'', ''xyz'')], location = ''/room/a''\<rparr>\<rparr>)
      fresh)))"
  using redirect_suppressed_and_params_forwarded [of "sample_window\<lparr>
        userAgent := ''Mozilla/5.0 (Linux; Android 11; Pixel 5)'',
        parsedFragment := \<lparr>params = [(''client_secret'', ''xyz'')], location = ''/room/a''\<rparr>\<rparr>"
      "''mobile_guide/''" fresh True "[(''client_secret'', ''xyz'')]"]
  by (simp add: run_defs sample_defs)

theorem empty_client_secret_counterexample:
  "map_of (params (parsedFragment (sample_window\<lparr>
        userAgent := ''Mozilla/5.0 (Linux; Android 11; Pixel 5)'',
        parsedFragment := \<lparr>params = [(''client_secret'', [])], location = []\<rparr>\<rparr>)))
      ''client_secret'' = Some [] \<and>
   Set_location_href ''mobile_guide/'' \<in> set (since fresh (snd (start True (sample_window\<lparr>
        userAgent := ''Mozilla/5.0 (Linux; Android 11; Pixel 5)'',
        parsedFragment := \<lparr>params = [(''client_secret'', [])], location = []\<rparr>\<rparr>)
      fresh)))"
  by (simp add: run_defs sample_defs)

lemma takeWhile_no_pending:
  "Pending \<notin> set promises \<Longrightarrow> takeWhile (\<lambda>p. p \<noteq> Pending) promises = promises"
  by (induction promises) auto

lemma await_settled_no_pending:
  "Pending \<notin> set promises \<Longrightarrow>
   await_settled promises k s = k (logged (rejection_lines promises) s)"
  by (simp add: await_settled_def settled_char takeWhile_no_pending rejection_lines_def)

lemma logged_logged: "logged es (logged es' s) = logged (es' @ es) s"
  by (simp add: logged_def)

lemma emit_eq_logged: "emit e s = logged [e] s"
  by (simp add: logged_def emit_def)

lemma since_logged: "since s (logged es s) = es"
  by (simp add: since_def logged_def)

lemma redirects_iff:
  "redirects w \<longleftrightarrow>
     \<not> truthy (map_of (params (parsedFragment w)) ''client_secret'') \<and>
     location (parsedFragment w) = [] \<and> (isIos w \<or> isAndroid w) \<and>
     \<not> str_includes ''element_mobile_redirect_to_guide=false'' (cookie w)"
  by (auto simp: redirects_def preventRedirect_def)

lemma start_redirects:
  assumes "import_init w = Fulfilled ini" and "rageshakePromise ini \<noteq> Pending"
    and "redirects w"
  shows "start supportedBrowser w s =
           (Fulfilled (), logged (rejection_lines [rageshakePromise ini] @
                                  [Set_location_href ''mobile_guide/'']) s)"
  using assms
  by (simp add: start_def start_try_def await_settled_no_pending emit_eq_logged logged_logged)

text \<open>
  C5, as the code has it. When the import of \<^verbatim>\<open>./init\<close> succeeds and \<^verbatim>\<open>rageshakePromise\<close>
  settles, the fragment has no \<^verbatim>\<open>client_secret\<close> parameter and an empty location, the
  user agent contains \<^verbatim>\<open>Android\<close>, or contains \<^verbatim>\<open>iPad\<close>, \<^verbatim>\<open>iPhone\<close> or \<^verbatim>\<open>iPod\<close> while
  \<^verbatim>\<open>window.MSStream\<close> is not set, and the cookie has no opt-out marker, then \<^verbatim>\<open>start\<close>
  sets \<^verbatim>\<open>location.href\<close> to the mobile guide and returns: apart from the log line of a
  failed rageshake, the redirect is the only thing it does, so none of \<^verbatim>\<open>loadOlm\<close>,
  \<^verbatim>\<open>preparePlatform\<close>, \<^verbatim>\<open>loadConfig\<close>, \<^verbatim>\<open>loadApp\<close> is invoked.
\<close>

theorem mobile_redirect_ends_the_sequence:
  assumes "import_init w = Fulfilled ini" and "rageshakePromise ini \<noteq> Pending"
    and "map_of (params (parsedFragment w)) ''client_secret'' = None"
    and "location (parsedFragment w) = []"
    and "isIos w \<or> isAndroid w"
    and "\<not> str_includes ''element_mobile_redirect_to_guide=false'' (cookie w)"
  shows "start supportedBrowser w s =
           (Fulfilled (), logged (rejection_lines [rageshakePromise ini] @
                                  [Set_location_href ''mobile_guide/'']) s) \<and>
         Call_loadConfig \<notin> set (since s (snd (start supportedBrowser w s))) \<and>
         Call_loadOlm \<notin> set (since s (snd (start supportedBrowser w s))) \<and>
         Call_preparePlatform \<notin> set (since s (snd (start supportedBrowser w s))) \<and>
         Call_loadApp p \<notin> set (since s (snd (start supportedBrowser w s)))"
proof -
  have "redirects w" using assms(3-6) by (simp add: redirects_iff truthy_def)
  then have eq: "start supportedBrowser w s =
           (Fulfilled (), logged (rejection_lines [rageshakePromise ini] @
                                  [Set_location_href ''mobile_guide/'']) s)"
    using assms(1,2) by (rule start_redirects [rotated 2])
  show ?thesis unfolding eq
    by (cases "rageshakePromise ini") (simp_all add: since_logged rejection_lines_def)
qed

theorem mobile_redirect_ends_the_sequence_witness:
  "str_includes ''iPhone'' (userAgent (sample_window\<lparr>userAgent :=
      ''Mozilla/5.0 (iPhone; CPU iPhone OS 14_0 like Mac OS X)''\<rparr>)) \<and>
   start True (sample_window\<lparr>userAgent :=
      ''Mozilla/5.0 (iPhone; CPU iPhone OS 14_0 like Mac OS X)''\<rparr>) fresh =
     (Fulfilled (), \<lparr>trace = [Set_location_href ''mobile_guide/''], localStorage = Some []\<rparr>)"
  using mobile_redirect_ends_the_sequence [of "sample_window\<lparr>userAgent :=
      ''Mozilla/5.0 (iPhone; CPU iPhone OS 14_0 like Mac OS X)''\<rparr>" sample_init True fresh "[]"]
  by (simp add: sample_defs isIos_def isAndroid_def logged_def rejection_lines_def)

theorem mobile_pattern_with_MSStream_counterexample:
  "map_of (params (parsedFragment (sample_window\<lparr>MSStream := True, userAgent :=
      ''Mozilla/5.0 (iPad; CPU OS 5_1 like Mac OS X) AppleWebKit/534.46''\<rparr>)))
     ''client_secret'' = None \<and>
   location (parsedFragment (sample_window\<lparr>MSStream := True, userAgent :=
      ''Mozilla/5.0 (iPad; CPU OS 5_1 like Mac OS X) AppleWebKit/534.46''\<rparr>)) = [] \<and>
   str_includes ''iPad'' (userAgent (sample_window\<lparr>MSStream := True, userAgent :=
      ''Mozilla/5.0 (iPad; CPU OS 5_1 like Mac OS X) AppleWebKit/534.46''\<rparr>)) \<and>
   \<not> str_includes ''element_mobile_redirect_to_guide=false''
      (cookie (sample_window\<lparr>MSStream := True, userAgent :=
      ''Mozilla/5.0 (iPad; CPU OS 5_1 like Mac OS X) AppleWebKit/534.46''\<rparr>)) \<and>
   Set_location_href ''mobile_guide/'' \<notin> set (trace (snd (start False
      (sample_window\<lparr>MSStream := True, userAgent :=
      ''Mozilla/5.0 (iPad; CPU OS 5_1 like Mac OS X) AppleWebKit/534.46''\<rparr>) fresh))) \<and>
   Call_loadConfig \<in> set (trace (snd (start False
      (sample_window\<lparr>MSStream := True, userAgent :=
      ''Mozilla/5.0 (iPad; CPU OS 5_1 like Mac OS X) AppleWebKit/534.46''\<rparr>) fresh)))"
  by (simp add: run_defs sample_defs)

section \<open>The handler of a rejected start\<close>

text \<open>
  C9. When the promise of \<^verbatim>\<open>start\<close> rejects, the handler logs the error, deletes the
  height style of the body and appends to the element \<^verbatim>\<open>matrixchat\<close> an iframe whose
  \<^verbatim>\<open>sandbox\<close> attribute is empty, which fills the viewport, and whose source is
  \<^verbatim>\<open>static/incompatible-browser.html\<close> exactly when the probe's verdict at module load
  was false and \<^verbatim>\<open>static/unable-to-load.html\<close> exactly when it was true.
\<close>

theorem rejected_start_shows_static_page:
  assumes "checkBrowserFeatures w s = (supportedBrowser, s1)"
    and "start supportedBrowser w s1 = (Rejected error, s2)"
  shows "module_load w s =
           logged [ConsoleError [LErr error], Delete_body_style_height,
                   AppendChild ''matrixchat'' (fatal_iframe supportedBrowser)] s2 \<and>
         sandbox (fatal_iframe supportedBrowser) = [] \<and>
         map_of (style (fatal_iframe supportedBrowser)) ''width'' = Some ''100%'' \<and>
         map_of (style (fatal_iframe supportedBrowser)) ''height'' = Some ''100%'' \<and>
         map_of (style (fatal_iframe supportedBrowser)) ''position'' = Some ''absolute'' \<and>
         map_of (style (fatal_iframe supportedBrowser)) ''top'' = Some ''0'' \<and>
         map_of (style (fatal_iframe supportedBrowser)) ''left'' = Some ''0'' \<and>
         map_of (style (fatal_iframe supportedBrowser)) ''right'' = Some ''0'' \<and>
         map_of (style (fatal_iframe supportedBrowser)) ''bottom'' = Some ''0'' \<and>
         (src (fatal_iframe supportedBrowser) = ''static/incompatible-browser.html''
            \<longleftrightarrow> \<not> supportedBrowser) \<and>
         (src (fatal_iframe supportedBrowser) = ''static/unable-to-load.html''
            \<longleftrightarrow> supportedBrowser)"
  using assms
  by (simp add: module_load_def start_catch_handler_def console_error_def emit_def logged_def
      fatal_iframe_def)

theorem rejected_start_shows_static_page_witness:
  "module_load (sample_window\<lparr>import_init := Rejected sample_error\<rparr>) fresh =
     \<lparr>trace = [ConsoleError [LErr sample_error], Delete_body_style_height,
               AppendChild ''matrixchat'' (fatal_iframe True)],
      localStorage = Some []\<rparr> \<and>
   src (fatal_iframe True) = ''static/unable-to-load.html'' \<and>
   module_load (sample_window\<lparr>Modernizr := None, import_init := Rejected sample_error\<rparr>) fresh =
     \<lparr>trace = [ConsoleError [LStr msg_modernizr_missing],
               ConsoleError [LErr sample_error], Delete_body_style_height,
               AppendChild ''matrixchat'' (fatal_iframe False)],
      localStorage = Some []\<rparr> \<and>
   src (fatal_iframe False) = ''static/incompatible-browser.html''"
  using rejected_start_shows_static_page
    [of "sample_window\<lparr>import_init := Rejected sample_error\<rparr>" fresh True fresh
        sample_error fresh]
    rejected_start_shows_static_page
    [of "sample_window\<lparr>Modernizr := None, import_init := Rejected sample_error\<rparr>" fresh False
        "\<lparr>trace = [ConsoleError [LStr msg_modernizr_missing]], localStorage = Some []\<rparr>"
        sample_error
        "\<lparr>trace = [ConsoleError [LStr msg_modernizr_missing]], localStorage = Some []\<rparr>"]
  by (simp add: sample_defs checkBrowserFeatures_def registered_def addTest_assign_def
      Object_keys_def property_def test_objectfromentries_def test_regexpdotall_def
      test_promiseprototypefinally_def start_def console_error_def emit_def logged_def)

section \<open>Reaching the configuration check\<close>

lemma start_try_reaches_gate:
  assumes "rageshakePromise ini \<noteq> Pending" and "\<not> redirects w"
    and "preparePlatform ini = None" and "loadConfig ini \<noteq> Pending"
    and "loadSkin ini \<noteq> Pending" and "loadTheme ini \<noteq> Pending"
    and "loadLanguage ini \<noteq> Pending"
  shows "start_try supported w ini s =
           compatibility_gate supported w ini (logged (pre_gate_events ini) s)"
  using assms
  by (simp add: start_try_def parallel_preload_def await_settled_no_pending emit_eq_logged
      logged_logged pre_gate_events_def Let_def)

lemma routine_rejection_lines: "list_all routine (rejection_lines promises)"
  by (simp add: rejection_lines_def list_all_iff)

lemma emits_logged:
  "list_all P evs \<Longrightarrow> list_all (\<lambda>e. \<not> is_setItem e) evs \<Longrightarrow> emits P s (logged evs s)"
  by (auto simp: emits_def logged_def)

lemma routine_not_setItem: "routine e \<Longrightarrow> \<not> is_setItem e"
  by (cases e) simp_all

lemma routine_before_check: "routine e \<Longrightarrow> before_check e"
  by (cases e) simp_all

lemma emits_pre_gate: "emits before_check s (logged (pre_gate_events ini) s)"
proof -
  have "list_all routine (pre_gate_events ini)"
    by (simp add: pre_gate_events_def routine_rejection_lines)
  then show ?thesis
    by (intro emits_logged) (auto simp: list_all_iff routine_not_setItem routine_before_check)
qed

lemma localStorage_logged: "localStorage (logged es s) = localStorage s"
  by (simp add: logged_def)

lemma gate_reaches_check:
  assumes "acceptBrowser supported s \<or> showIncompatibleBrowser ini = Confirms"
  shows "\<exists>s_c. emits before_check s s_c \<and>
           compatibility_gate supported w ini s = config_hard_check w ini s_c"
proof (cases "acceptBrowser supported s")
  case True
  then show ?thesis using emits_refl by (auto simp: compatibility_gate_def)
next
  case False
  then have c: "showIncompatibleBrowser ini = Confirms" using assms by simp
  define s2 where "s2 = emit Call_showIncompatibleBrowser
      (console_error [LStr ''Browser is missing required features.''] s)"
  have 1: "emits before_check s s2" unfolding s2_def console_error_def
    by (rule emits_trans [OF emits_emit emits_emit]) simp_all
  have 2: "emits before_check s2 (on_accept s2)"
    by (rule emits_on_accept) (simp_all add: routine_before_check)
  have "compatibility_gate supported w ini s = config_hard_check w ini (on_accept s2)"
    using False c by (simp add: compatibility_gate_def Let_def s2_def)
  then show ?thesis using emits_trans [OF 1 2] by blast
qed

lemma start_try_reaches_check:
  assumes "rageshakePromise ini \<noteq> Pending" and "\<not> redirects w"
    and "preparePlatform ini = None" and "loadConfig ini \<noteq> Pending"
    and "loadSkin ini \<noteq> Pending" and "loadTheme ini \<noteq> Pending"
    and "loadLanguage ini \<noteq> Pending"
    and "acceptBrowser supported s \<or> showIncompatibleBrowser ini = Confirms"
  shows "\<exists>s_c. emits before_check s s_c \<and>
           start_try supported w ini s = config_hard_check w ini s_c"
proof -
  define s_g where "s_g = logged (pre_gate_events ini) s"
  have "acceptBrowser supported s_g = acceptBrowser supported s"
    by (rule acceptBrowser_cong) (simp add: s_g_def localStorage_logged)
  then obtain s_c where "emits before_check s_g s_c"
    "compatibility_gate supported w ini s_g = config_hard_check w ini s_c"
    using gate_reaches_check [of supported s_g ini w] assms(8) by auto
  moreover have "emits before_check s s_g" unfolding s_g_def by (rule emits_pre_gate)
  moreover have "start_try supported w ini s = compatibility_gate supported w ini s_g"
    unfolding s_g_def by (rule start_try_reaches_gate) (use assms in auto)
  ultimately show ?thesis using emits_trans by metis
qed

lemma before_check_no_surface: "before_check e \<Longrightarrow> \<not> (is_showError e \<or> is_loadApp e)"
  by (cases e) simp_all

lemma surfaces_after_showError:
  assumes "emits before_check s s_c"
  shows "surfaces (since s (emit (Call_showError title messages) s_c)) =
           [Call_showError title messages] \<and>
         last (since s (emit (Call_showError title messages) s_c)) =
           Call_showError title messages"
proof -
  from assms obtain evs where evs: "trace s_c = trace s @ evs" "list_all before_check evs"
    by (auto simp: emits_def)
  have "\<not> (is_showError e \<or> is_loadApp e)" if "e \<in> set evs" for e
    using that evs(2) before_check_no_surface by (simp add: list_all_iff)
  then have "surfaces evs = []" by (auto simp: surfaces_def filter_empty_conv)
  then show ?thesis using evs(1) by (simp add: since_def emit_def surfaces_def)
qed

lemma start_config_rejected:
  assumes "import_init w = Fulfilled ini" and "loadConfig ini = Rejected error"
    and "rageshakePromise ini \<noteq> Pending" and "\<not> redirects w"
    and "preparePlatform ini = None"
    and "loadSkin ini \<noteq> Pending" and "loadTheme ini \<noteq> Pending"
    and "loadLanguage ini \<noteq> Pending"
    and "acceptBrowser supported s \<or> showIncompatibleBrowser ini = Confirms"
    and "config_hard_check w ini = return_showError ini title messages"
  shows "fst (start supported w s) = showError ini title messages \<and>
         surfaces (since s (snd (start supported w s))) = [Call_showError title messages] \<and>
         last (since s (snd (start supported w s))) = Call_showError title messages"
proof -
  obtain s_c where s_c: "emits before_check s s_c"
    "start_try supported w ini s = config_hard_check w ini s_c"
    using start_try_reaches_check [of ini w supported s] assms by auto
  have "start supported w s =
          (showError ini title messages, emit (Call_showError title messages) s_c)"
    using assms(1) s_c(2) assms(10) by (simp add: start_def return_showError_def)
  then show ?thesis using surfaces_after_showError [OF s_c(1)] by simp
qed

lemma config_hard_check_syntax_error:
  "loadConfig ini = Rejected error \<Longrightarrow> err error = Some (SyntaxError message) \<Longrightarrow>
   config_hard_check w ini =
     return_showError ini (t ini ''Your Element is misconfigured'' [])
       (Some (config_error_messages ini message))"
  by (rule ext) (simp add: config_hard_check_def)

lemma config_hard_check_other_error:
  "loadConfig ini = Rejected error \<Longrightarrow> \<forall>m. err error \<noteq> Some (SyntaxError m) \<Longrightarrow>
   config_hard_check w ini =
     return_showError ini
       (t ini ''Unable to load config file: please refresh the page to try again.'' []) None"
  by (rule ext) (simp add: config_hard_check_def split: option.splits inner_error.splits)

lemma no_loadApp_when_config_rejected:
  assumes "import_init w = Fulfilled ini" and "loadConfig ini = Rejected error"
  shows "Call_loadApp p \<notin> set (since s (snd (start supported w s)))"
proof -
  have "emits (\<lambda>e. e \<noteq> Call_loadApp p) s (snd (start supported w s))"
  proof (rule emits_start)
    fix e assume "routine e" then show "e \<noteq> Call_loadApp p" by auto
  next
    fix ini' assume "import_init w = Fulfilled ini'" "loadConfig ini' = Fulfilled ()"
    then show "Call_loadApp (params (parsedFragment w)) \<noteq> Call_loadApp p"
      using assms by simp
  qed simp_all
  then show ?thesis using emits_since list_all_since_D by blast
qed

text \<open>
  C6. Let the import succeed and the promise of \<^verbatim>\<open>loadConfig\<close> reject with \<open>error\<close>. Then
  \<^verbatim>\<open>loadApp\<close> is never invoked. When the run gets as far as \<^verbatim>\<open>await loadConfigPromise\<close>
  (nothing before it stays pending or throws, there is no redirect, and the browser is
  accepted or the user confirms), \<^verbatim>\<open>start\<close> ends by returning one call of \<^verbatim>\<open>showError\<close>,
  the only surface of the run. If \<^verbatim>\<open>error.err\<close> is a \<^verbatim>\<open>SyntaxError\<close>, the title is "Your
  Element is misconfigured" and the messages are two: the invalid-JSON statement, and
  "The message from the parser is" with the parser's message substituted (with the
  translation of "Invalid JSON" in its place when that message is empty). For any other
  error, the title is "Unable to load config file" and there are no messages.
\<close>

theorem config_rejection_shows_error_by_kind:
  assumes "import_init w = Fulfilled ini" and "loadConfig ini = Rejected error"
  shows "Call_loadApp p \<notin> set (since s (snd (start supportedBrowser w s))) \<and>
    (rageshakePromise ini \<noteq> Pending \<and> \<not> redirects w \<and> preparePlatform ini = None \<and>
     loadSkin ini \<noteq> Pending \<and> loadTheme ini \<noteq> Pending \<and> loadLanguage ini \<noteq> Pending \<and>
     (acceptBrowser supportedBrowser s \<or> showIncompatibleBrowser ini = Confirms) \<longrightarrow>
       (err error = Some (SyntaxError message) \<longrightarrow>
          fst (start supportedBrowser w s) =
            showError ini (t ini ''Your Element is misconfigured'' [])
              (Some [t ini (''Your Element configuration contains invalid JSON. '' @
                            ''Please correct the problem and reload the page.'') [],
                     t ini ''The message from the parser is: %(message)s''
                       [(''message'',
                         if message \<noteq> [] then message else t ini ''Invalid JSON'' [])]]) \<and>
          surfaces (since s (snd (start supportedBrowser w s))) =
            [Call_showError (t ini ''Your Element is misconfigured'' [])
              (Some [t ini (''Your Element configuration contains invalid JSON. '' @
                            ''Please correct the problem and reload the page.'') [],
                     t ini ''The message from the parser is: %(message)s''
                       [(''message'',
                         if message \<noteq> [] then message else t ini ''Invalid JSON'' [])]])] \<and>
          is_showError (last (since s (snd (start supportedBrowser w s))))) \<and>
       ((\<forall>m. err error \<noteq> Some (SyntaxError m)) \<longrightarrow>
          fst (start supportedBrowser w s) =
            showError ini
              (t ini ''Unable to load config file: please refresh the page to try again.'' [])
              None \<and>
          surfaces (since s (snd (start supportedBrowser w s))) =
            [Call_showError
              (t ini ''Unable to load config file: please refresh the page to try again.'' [])
              None] \<and>
          is_showError (last (since s (snd (start supportedBrowser w s))))))"
proof (intro conjI impI)
  show "Call_loadApp p \<notin> set (since s (snd (start supportedBrowser w s)))"
    using assms by (rule no_loadApp_when_config_rejected)
next
  assume r: "rageshakePromise ini \<noteq> Pending \<and> \<not> redirects w \<and> preparePlatform ini = None \<and>
     loadSkin ini \<noteq> Pending \<and> loadTheme ini \<noteq> Pending \<and> loadLanguage ini \<noteq> Pending \<and>
     (acceptBrowser supportedBrowser s \<or> showIncompatibleBrowser ini = Confirms)"
  {
    assume "err error = Some (SyntaxError message)"
    then have c: "config_hard_check w ini =
        return_showError ini (t ini ''Your Element is misconfigured'' [])
          (Some (config_error_messages ini message))"
      using assms(2) by (simp add: config_hard_check_syntax_error)
    have k: "fst (start supportedBrowser w s) =
          showError ini (t ini ''Your Element is misconfigured'' [])
            (Some (config_error_messages ini message)) \<and>
        surfaces (since s (snd (start supportedBrowser w s))) =
          [Call_showError (t ini ''Your Element is misconfigured'' [])
            (Some (config_error_messages ini message))] \<and>
        last (since s (snd (start supportedBrowser w s))) =
          Call_showError (t ini ''Your Element is misconfigured'' [])
            (Some (config_error_messages ini message))"
      by (rule start_config_rejected [OF assms(1) assms(2) _ _ _ _ _ _ _ c]) (use r in auto)
    show "fst (start supportedBrowser w s) =
            showError ini (t ini ''Your Element is misconfigured'' [])
              (Some [t ini (''Your Element configuration contains invalid JSON. '' @
                            ''Please correct the problem and reload the page.'') [],
                     t ini ''The message from the parser is: %(message)s''
                       [(''message'',
                         if message \<noteq> [] then message else t ini ''Invalid JSON'' [])]])"
      using k by (simp add: config_error_messages_def)
    show "surfaces (since s (snd (start supportedBrowser w s))) =
            [Call_showError (t ini ''Your Element is misconfigured'' [])
              (Some [t ini (''Your Element configuration contains invalid JSON. '' @
                            ''Please correct the problem and reload the page.'') [],
                     t ini ''The message from the parser is: %(message)s''
                       [(''message'',
                         if message \<noteq> [] then message else t ini ''Invalid JSON'' [])]])]"
      using k by (simp add: config_error_messages_def)
    show "is_showError (last (since s (snd (start supportedBrowser w s))))"
      using k by simp
  }
  {
    assume "\<forall>m. err error \<noteq> Some (SyntaxError m)"
    then have c: "config_hard_check w ini =
        return_showError ini
          (t ini ''Unable to load config file: please refresh the page to try again.'' []) None"
      using assms(2) by (simp add: config_hard_check_other_error)
    have k: "fst (start supportedBrowser w s) =
          showError ini
            (t ini ''Unable to load config file: please refresh the page to try again.'' [])
            None \<and>
        surfaces (since s (snd (start supportedBrowser w s))) =
          [Call_showError
            (t ini ''Unable to load config file: please refresh the page to try again.'' [])
            None] \<and>
        last (since s (snd (start supportedBrowser w s))) =
          Call_showError
            (t ini ''Unable to load config file: please refresh the page to try again.'' [])
            None"
      by (rule start_config_rejected [OF assms(1) assms(2) _ _ _ _ _ _ _ c]) (use r in auto)
    show "fst (start supportedBrowser w s) =
            showError ini
              (t ini ''Unable to load config file: please refresh the page to try again.'' [])
              None"
      using k by simp
    show "surfaces (since s (snd (start supportedBrowser w s))) =
            [Call_showError
              (t ini ''Unable to load config file: please refresh the page to try again.'' [])
              None]"
      using k by simp
    show "is_showError (last (since s (snd (start supportedBrowser w s))))"
      using k by simp
  }
qed

theorem config_rejection_shows_error_by_kind_witness:
  "fst (start True (sample_window\<lparr>import_init := Fulfilled (sample_init\<lparr>loadConfig :=
       Rejected (JsError (Some (SyntaxError ''Unexpected token } in JSON at position 42''))
         None)\<rparr>)\<rparr>) fresh) = Fulfilled () \<and>
   since fresh (snd (start True (sample_window\<lparr>import_init := Fulfilled (sample_init\<lparr>loadConfig :=
       Rejected (JsError (Some (SyntaxError ''Unexpected token } in JSON at position 42''))
         None)\<rparr>)\<rparr>) fresh)) =
     [Call_loadOlm, Call_preparePlatform, Call_loadConfig,
      ConsoleError [LErr (JsError (Some (SyntaxError
        ''Unexpected token } in JSON at position 42'')) None)],
      Call_setupLogStorage, Call_loadLanguage, Call_loadTheme, Call_loadSkin,
      Call_showError ''Your Element is misconfigured''
        (Some [''Your Element configuration contains invalid JSON. '' @
               ''Please correct the problem and reload the page.'',
               ''The message from the parser is: %(message)s'' @
               ''Unexpected token } in JSON at position 42''])] \<and>
   since fresh (snd (start True (sample_window\<lparr>import_init := Fulfilled (sample_init\<lparr>loadConfig :=
       Rejected (JsError (Some (OtherError ''404'')) None)\<rparr>)\<rparr>) fresh)) =
     [Call_loadOlm, Call_preparePlatform, Call_loadConfig,
      ConsoleError [LErr (JsError (Some (OtherError ''404'')) None)],
      Call_setupLogStorage, Call_loadLanguage, Call_loadTheme, Call_loadSkin,
      Call_showError ''Unable to load config file: please refresh the page to try again.''
        None]"
  using config_rejection_shows_error_by_kind
    [of "sample_window\<lparr>import_init := Fulfilled (sample_init\<lparr>loadConfig :=
       Rejected (JsError (Some (SyntaxError ''Unexpected token } in JSON at position 42''))
         None)\<rparr>)\<rparr>"
       "sample_init\<lparr>loadConfig :=
       Rejected (JsError (Some (SyntaxError ''Unexpected token } in JSON at position 42''))
         None)\<rparr>"
       "JsError (Some (SyntaxError ''Unexpected token } in JSON at position 42'')) None"
       "[]" fresh True "''Unexpected token } in JSON at position 42''"]
    config_rejection_shows_error_by_kind
    [of "sample_window\<lparr>import_init := Fulfilled (sample_init\<lparr>loadConfig :=
       Rejected (JsError (Some (OtherError ''404'')) None)\<rparr>)\<rparr>"
       "sample_init\<lparr>loadConfig := Rejected (JsError (Some (OtherError ''404'')) None)\<rparr>"
       "JsError (Some (OtherError ''404'')) None" "[]" fresh True "[]"]
  by (simp add: run_defs sample_defs)

section \<open>Errors that reach the catch clause\<close>

lemma throw_await:
  assumes "fst (k s) = Inl e \<Longrightarrow> emits P s (snd (k s))"
    and "fst (await prom k s) = Inl e"
  shows "emits P s (snd (await prom k s))"
  using assms by (cases prom) (simp_all add: await_def emits_refl)

lemma throw_await_settled:
  assumes C: "\<And>a. P (ConsoleError a)"
    and K: "\<And>s'. fst (k s') = Inl e \<Longrightarrow> emits P s' (snd (k s'))"
    and T: "fst (await_settled promises k s) = Inl e"
  shows "emits P s (snd (await_settled promises k s))"
proof -
  obtain r s1 where r: "settled promises s = (r, s1)" by (cases "settled promises s")
  have 1: "emits P s s1" using emits_settled [of P s promises] C r by simp
  show ?thesis
  proof (cases r)
    case (Fulfilled v)
    then have "fst (k s1) = Inl e" using T r by (simp add: await_settled_def)
    then have "emits P s1 (snd (k s1))" by (rule K)
    then show ?thesis using Fulfilled r 1 by (simp add: await_settled_def emits_trans)
  next
    case (Rejected e')
    then show ?thesis using r 1 by (simp add: await_settled_def)
  next
    case Pending
    then show ?thesis using r 1 by (simp add: await_settled_def)
  qed
qed

lemma routine_no_showError: "routine e \<Longrightarrow> \<not> is_showError e"
  by (cases e) simp_all

lemma throw_config_hard_check:
  assumes "fst (config_hard_check w ini s) = Inl e"
  shows "emits (\<lambda>e. \<not> is_showError e) s (snd (config_hard_check w ini s))"
proof (cases "loadConfig ini")
  case (Fulfilled u)
  have "emits (\<lambda>e. \<not> is_showError e) s (snd (app_load_critical_path w ini s))"
    by (rule emits_app_load) (simp_all add: routine_no_showError)
  then show ?thesis using Fulfilled by (simp add: config_hard_check_def)
next
  case (Rejected error)
  then have "\<exists>r. fst (config_hard_check w ini s) = Inr r"
    by (simp add: config_hard_check_def return_showError_def
        split: option.splits inner_error.splits)
  then show ?thesis using assms by auto
next
  case Pending
  then show ?thesis by (simp add: config_hard_check_def emits_refl)
qed

lemma throw_compatibility_gate:
  assumes T: "fst (compatibility_gate supported w ini s) = Inl e"
  shows "emits (\<lambda>e. \<not> is_showError e) s (snd (compatibility_gate supported w ini s))"
proof (cases "acceptBrowser supported s")
  case True
  then show ?thesis using T throw_config_hard_check [of w ini s e]
    by (simp add: compatibility_gate_def)
next
  case False
  define s2 where "s2 = emit Call_showIncompatibleBrowser
      (console_error [LStr ''Browser is missing required features.''] s)"
  have 1: "emits (\<lambda>e. \<not> is_showError e) s s2" unfolding s2_def console_error_def
    by (rule emits_trans [OF emits_emit emits_emit]) simp_all
  show ?thesis
  proof (cases "showIncompatibleBrowser ini")
    case Confirms
    have eq: "compatibility_gate supported w ini s = config_hard_check w ini (on_accept s2)"
      using False Confirms by (simp add: compatibility_gate_def Let_def s2_def)
    have 2: "emits (\<lambda>e. \<not> is_showError e) s2 (on_accept s2)"
      by (rule emits_on_accept) (simp_all add: routine_no_showError)
    have 3: "emits (\<lambda>e. \<not> is_showError e) (on_accept s2)
               (snd (config_hard_check w ini (on_accept s2)))"
      by (rule throw_config_hard_check [of w ini "on_accept s2" e]) (use T eq in simp)
    show ?thesis unfolding eq using emits_trans [OF 1 emits_trans [OF 2 3]] .
  next
    case NeverConfirms
    then show ?thesis using False 1 by (simp add: compatibility_gate_def Let_def s2_def)
  qed
qed

lemma throw_parallel_preload:
  assumes T: "fst (parallel_preload supported w ini s) = Inl e"
  shows "emits (\<lambda>e. \<not> is_showError e) s (snd (parallel_preload supported w ini s))"
proof -
  define s1 where "s1 = emit Call_preparePlatform (emit Call_loadOlm s)"
  have 1: "emits (\<lambda>e. \<not> is_showError e) s s1" unfolding s1_def
    by (rule emits_trans [OF emits_emit emits_emit]) simp_all
  show ?thesis
  proof (cases "preparePlatform ini")
    case (Some e')
    then show ?thesis using 1 by (simp add: parallel_preload_def Let_def s1_def)
  next
    case None
    define k where "k = (\<lambda>s2. await_settled [loadSkin ini, loadTheme ini, loadLanguage ini]
                (compatibility_gate supported w ini)
                (emit Call_loadSkin (emit Call_loadTheme
                  (emit Call_loadLanguage (emit Call_setupLogStorage s2)))))"
    have eq: "parallel_preload supported w ini s =
        await_settled [loadConfig ini] k (emit Call_loadConfig s1)"
      using None by (simp add: parallel_preload_def Let_def s1_def k_def)
    have 2: "emits (\<lambda>e. \<not> is_showError e) s1 (emit Call_loadConfig s1)"
      by (simp add: emits_emit)
    have inner: "emits (\<lambda>e. \<not> is_showError e) s2 (snd (k s2))" if t: "fst (k s2) = Inl e" for s2
    proof -
      define s3 where "s3 = emit Call_loadSkin (emit Call_loadTheme
                  (emit Call_loadLanguage (emit Call_setupLogStorage s2)))"
      have a: "emits (\<lambda>e. \<not> is_showError e) s2 s3" unfolding s3_def
        by (intro emits_trans [OF emits_emit emits_trans [OF emits_emit
              emits_trans [OF emits_emit emits_emit]]]) simp_all
      have keq: "k s2 = await_settled [loadSkin ini, loadTheme ini, loadLanguage ini]
                (compatibility_gate supported w ini) s3"
        by (simp add: k_def s3_def)
      have b: "emits (\<lambda>e. \<not> is_showError e) s3 (snd (k s2))" unfolding keq
      proof (rule throw_await_settled)
        fix a show "\<not> is_showError (ConsoleError a)" by simp
      next
        fix s' :: state
        assume "fst (compatibility_gate supported w ini s') = Inl e"
        then show "emits (\<lambda>e. \<not> is_showError e) s' (snd (compatibility_gate supported w ini s'))"
          by (rule throw_compatibility_gate)
      next
        show "fst (await_settled [loadSkin ini, loadTheme ini, loadLanguage ini]
                (compatibility_gate supported w ini) s3) = Inl e"
          using t keq by simp
      qed
      show ?thesis using emits_trans [OF a b] .
    qed
    have 3: "emits (\<lambda>e. \<not> is_showError e) (emit Call_loadConfig s1)
               (snd (await_settled [loadConfig ini] k (emit Call_loadConfig s1)))"
    proof (rule throw_await_settled)
      fix a show "\<not> is_showError (ConsoleError a)" by simp
    next
      fix s' :: state assume "fst (k s') = Inl e"
      then show "emits (\<lambda>e. \<not> is_showError e) s' (snd (k s'))" by (rule inner)
    next
      show "fst (await_settled [loadConfig ini] k (emit Call_loadConfig s1)) = Inl e"
        using T eq by simp
    qed
    show ?thesis unfolding eq using emits_trans [OF 1 emits_trans [OF 2 3]] .
  qed
qed

lemma throw_start_try:
  assumes T: "fst (start_try supported w ini s) = Inl e"
  shows "emits (\<lambda>e. \<not> is_showError e) s (snd (start_try supported w ini s))"
  unfolding start_try_def
proof (rule throw_await_settled)
  fix a show "\<not> is_showError (ConsoleError a)" by simp
next
  fix s' :: state
  assume "fst (if redirects w
               then (Inr (Fulfilled ()), emit (Set_location_href ''mobile_guide/'') s')
               else parallel_preload supported w ini s') = Inl e"
  then show "emits (\<lambda>e. \<not> is_showError e) s'
          (snd (if redirects w
                then (Inr (Fulfilled ()), emit (Set_location_href ''mobile_guide/'') s')
                else parallel_preload supported w ini s'))"
    using throw_parallel_preload [of supported w ini s' e]
    by (cases "redirects w") simp_all
next
  show "fst (await_settled [rageshakePromise ini]
          (\<lambda>s. if redirects w
               then (Inr (Fulfilled ()), emit (Set_location_href ''mobile_guide/'') s)
               else parallel_preload supported w ini s) s) = Inl e"
    using T by (simp add: start_try_def)
qed

lemma no_showError_before_throw:
  assumes "start_try supported w ini s = (Inl e, s1)"
  shows "filter is_showError (since s s1) = []"
proof -
  have "emits (\<lambda>e. \<not> is_showError e) s s1"
    using throw_start_try [of supported w ini s e] assms by simp
  then have "list_all (\<lambda>e. \<not> is_showError e) (since s s1)" by (rule emits_since)
  then show ?thesis by (simp add: filter_empty_conv list_all_iff)
qed

lemma since_logged_after:
  "emits P s s1 \<Longrightarrow> since s (logged es s1) = since s s1 @ es"
  by (auto simp: emits_def since_def logged_def)

text \<open>
  C7. Let the import succeed and let the body of the \<^verbatim>\<open>try\<close> block throw \<open>error\<close>, in the
  state \<open>s1\<close>. Then \<^verbatim>\<open>start\<close> logs the error and awaits one call of \<^verbatim>\<open>showError\<close>, titled
  "Your Element is misconfigured", with a single line: \<^verbatim>\<open>error.translatedMessage\<close> when
  that is a non-empty string, and the translation of "Unexpected error preparing the
  app. See console for details." otherwise. That call is the only \<^verbatim>\<open>showError\<close> of the run.
\<close>

theorem escaped_error_is_shown_once:
  assumes "import_init w = Fulfilled ini"
    and "start_try supportedBrowser w ini s = (Inl error, s1)"
  shows "start supportedBrowser w s =
      (showError ini (t ini ''Your Element is misconfigured'' [])
         (Some [case translatedMessage error of
                  Some m \<Rightarrow>
                    if m \<noteq> [] then m
                    else t ini ''Unexpected error preparing the app. See console for details.'' []
                | None \<Rightarrow>
                    t ini ''Unexpected error preparing the app. See console for details.'' []]),
       logged [ConsoleError [LErr error],
               Call_showError (t ini ''Your Element is misconfigured'' [])
                 (Some [case translatedMessage error of
                    Some m \<Rightarrow>
                      if m \<noteq> [] then m
                      else t ini ''Unexpected error preparing the app. See console for details.'' []
                  | None \<Rightarrow>
                      t ini ''Unexpected error preparing the app. See console for details.'' []])]
         s1) \<and>
    length (filter is_showError (since s (snd (start supportedBrowser w s)))) = 1"
proof -
  have eq: "start supportedBrowser w s =
      (showError ini (t ini ''Your Element is misconfigured'' [])
         (Some [case translatedMessage error of
                  Some m \<Rightarrow>
                    if m \<noteq> [] then m
                    else t ini ''Unexpected error preparing the app. See console for details.'' []
                | None \<Rightarrow>
                    t ini ''Unexpected error preparing the app. See console for details.'' []]),
       logged [ConsoleError [LErr error],
               Call_showError (t ini ''Your Element is misconfigured'' [])
                 (Some [case translatedMessage error of
                    Some m \<Rightarrow>
                      if m \<noteq> [] then m
                      else t ini ''Unexpected error preparing the app. See console for details.'' []
                  | None \<Rightarrow>
                      t ini ''Unexpected error preparing the app. See console for details.'' []])]
         s1)"
    using assms
    by (simp add: start_def start_catch_def Let_def or_else_def console_error_def emit_def
        logged_def split: option.splits)
  have e: "emits (\<lambda>e. \<not> is_showError e) s s1"
    using throw_start_try [of supportedBrowser w ini s error] assms(2) by simp
  have n: "filter is_showError (since s s1) = []"
    using assms(2) by (rule no_showError_before_throw)
  show ?thesis unfolding eq using n by (simp add: since_logged_after [OF e])
qed

theorem escaped_error_is_shown_once_witness:
  "start True (sample_window\<lparr>import_init := Fulfilled (sample_init\<lparr>loadOlm :=
       Rejected (JsError None (Some ''Unable to load Olm''))\<rparr>)\<rparr>) fresh =
     (Fulfilled (),
      \<lparr>trace = [Call_loadOlm, Call_preparePlatform, Call_loadConfig, Call_setupLogStorage,
                Call_loadLanguage, Call_loadTheme, Call_loadSkin,
                ConsoleError [LErr (JsError None (Some ''Unable to load Olm''))],
                Call_showError ''Your Element is misconfigured''
                  (Some [''Unable to load Olm''])],
       localStorage = Some []\<rparr>) \<and>
   start True (sample_window\<lparr>import_init := Fulfilled (sample_init\<lparr>loadApp :=
       (\<lambda>p. Rejected (JsError None None))\<rparr>)\<rparr>) fresh =
     (Fulfilled (),
      \<lparr>trace = [Call_loadOlm, Call_preparePlatform, Call_loadConfig, Call_setupLogStorage,
                Call_loadLanguage, Call_loadTheme, Call_loadSkin, Call_loadApp [],
                ConsoleError [LErr (JsError None None)],
                Call_showError ''Your Element is misconfigured''
                  (Some [''Unexpected error preparing the app. See console for details.''])],
       localStorage = Some []\<rparr>)"
  using escaped_error_is_shown_once
    [of "sample_window\<lparr>import_init := Fulfilled (sample_init\<lparr>loadOlm :=
           Rejected (JsError None (Some ''Unable to load Olm''))\<rparr>)\<rparr>"
        "sample_init\<lparr>loadOlm := Rejected (JsError None (Some ''Unable to load Olm''))\<rparr>"
        True fresh "JsError None (Some ''Unable to load Olm'')"
        "\<lparr>trace = [Call_loadOlm, Call_preparePlatform, Call_loadConfig, Call_setupLogStorage,
                  Call_loadLanguage, Call_loadTheme, Call_loadSkin],
         localStorage = Some []\<rparr>"]
    escaped_error_is_shown_once
    [of "sample_window\<lparr>import_init := Fulfilled (sample_init\<lparr>loadApp :=
           (\<lambda>p. Rejected (JsError None None))\<rparr>)\<rparr>"
        "sample_init\<lparr>loadApp := (\<lambda>p. Rejected (JsError None None))\<rparr>"
        True fresh "JsError None None"
        "\<lparr>trace = [Call_loadOlm, Call_preparePlatform, Call_loadConfig, Call_setupLogStorage,
                  Call_loadLanguage, Call_loadTheme, Call_loadSkin, Call_loadApp []],
         localStorage = Some []\<rparr>"]
  by (simp add: run_defs sample_defs logged_def)

text \<open>
  C10. With an unsupported browser and no \<^verbatim>\<open>localStorage\<close>, \<^verbatim>\<open>acceptBrowser\<close> is false;
  no run writes to the storage, which is still absent at the end; and when the user
  confirms and every loader succeeds, the run goes on from the surface to \<^verbatim>\<open>loadApp\<close>
  with nothing written in between.
\<close>

theorem no_storage_no_acknowledgment_written:
  assumes "\<not> supportedBrowser" and "localStorage s = None"
  shows "\<not> acceptBrowser supportedBrowser s \<and>
    localStorage (snd (start supportedBrowser w s)) = None \<and>
    Storage_setItem k v \<notin> set (since s (snd (start supportedBrowser w s))) \<and>
    (import_init w = Fulfilled ini \<and> showIncompatibleBrowser ini = Confirms \<and>
     \<not> redirects w \<and> rageshakePromise ini = Fulfilled () \<and> preparePlatform ini = None \<and>
     loadConfig ini = Fulfilled () \<and> loadSkin ini = Fulfilled () \<and>
     loadTheme ini = Fulfilled () \<and> loadLanguage ini = Fulfilled () \<and>
     loadOlm ini = Fulfilled () \<and> setupLogStorage ini = Fulfilled () \<and>
     loadApp ini (params (parsedFragment w)) = Fulfilled () \<longrightarrow>
       start supportedBrowser w s =
         (Fulfilled (),
          logged [Call_loadOlm, Call_preparePlatform, Call_loadConfig, Call_setupLogStorage,
                  Call_loadLanguage, Call_loadTheme, Call_loadSkin,
                  ConsoleError [LStr ''Browser is missing required features.''],
                  Call_showIncompatibleBrowser,
                  ConsoleLog [LStr ''User accepts the compatibility risks.''],
                  Call_loadApp (params (parsedFragment w))] s))"
proof (intro conjI impI)
  show "\<not> acceptBrowser supportedBrowser s" using assms by (simp add: acceptBrowser_def)
next
  have e: "emits (\<lambda>e. \<not> is_setItem e) s (snd (start supportedBrowser w s))"
  proof (rule emits_start)
    fix e assume "routine e" then show "\<not> is_setItem e" by (rule routine_not_setItem)
  next
    assume "localStorage s \<noteq> None"
    then show "\<not> is_setItem (Storage_setItem key_accepts ''true'')" using assms(2) by simp
  qed simp_all
  show "localStorage (snd (start supportedBrowser w s)) = None"
    using emits_localStorage [OF e] assms(2) by simp
  have "list_all (\<lambda>e. \<not> is_setItem e) (since s (snd (start supportedBrowser w s)))"
    using e by (rule emits_since)
  then show "Storage_setItem k v \<notin> set (since s (snd (start supportedBrowser w s)))"
    by (auto simp: list_all_iff)
next
  assume "import_init w = Fulfilled ini \<and> showIncompatibleBrowser ini = Confirms \<and>
     \<not> redirects w \<and> rageshakePromise ini = Fulfilled () \<and> preparePlatform ini = None \<and>
     loadConfig ini = Fulfilled () \<and> loadSkin ini = Fulfilled () \<and>
     loadTheme ini = Fulfilled () \<and> loadLanguage ini = Fulfilled () \<and>
     loadOlm ini = Fulfilled () \<and> setupLogStorage ini = Fulfilled () \<and>
     loadApp ini (params (parsedFragment w)) = Fulfilled ()"
  then show "start supportedBrowser w s =
         (Fulfilled (),
          logged [Call_loadOlm, Call_preparePlatform, Call_loadConfig, Call_setupLogStorage,
                  Call_loadLanguage, Call_loadTheme, Call_loadSkin,
                  ConsoleError [LStr ''Browser is missing required features.''],
                  Call_showIncompatibleBrowser,
                  ConsoleLog [LStr ''User accepts the compatibility risks.''],
                  Call_loadApp (params (parsedFragment w))] s)"
    using assms
    by (simp add: start_def start_try_def parallel_preload_def compatibility_gate_def
        config_hard_check_def app_load_critical_path_def await_def await_settled_def
        on_accept_def acceptBrowser_def emit_def console_error_def console_log_def
        logged_def Let_def)
qed

theorem no_storage_no_acknowledgment_written_witness:
  "start False sample_window \<lparr>trace = [], localStorage = None\<rparr> =
     (Fulfilled (),
      \<lparr>trace = [Call_loadOlm, Call_preparePlatform, Call_loadConfig, Call_setupLogStorage,
                Call_loadLanguage, Call_loadTheme, Call_loadSkin,
                ConsoleError [LStr ''Browser is missing required features.''],
                Call_showIncompatibleBrowser,
                ConsoleLog [LStr ''User accepts the compatibility risks.''],
                Call_loadApp []],
       localStorage = None\<rparr>)"
  using no_storage_no_acknowledgment_written
    [of False "\<lparr>trace = [], localStorage = None\<rparr>" sample_window key_accepts "''true''"
        sample_init]
  by (simp add: sample_defs logged_def redirects_def preventRedirect_def isIos_def
      isAndroid_def truthy_def)

end
